theory Spec2Isabelle
  imports Main "HOL-Library.AList" "HOL-Library.Log_Nat"
begin

section \<open>Python values\<close>

text \<open>
  A Python \<open>str\<close> is a sequence of Unicode code points, so \<open>len\<close> counts code
  points and the character predicates are predicates on code points. The literals of
  the source are ASCII and are written through \<open>ustr\<close>. Dictionary keys are always
  ASCII literals in this program and are kept as HOL strings.
\<close>

type_synonym pystr = "nat list"

definition ustr :: "string \<Rightarrow> pystr" where
  "ustr s = map of_char s"

text \<open>
  \<open>str.isspace\<close> on one code point, which is also the set that \<open>str.strip()\<close> and
  \<open>str.split()\<close> without arguments treat as whitespace.
\<close>

definition py_isspace :: "nat \<Rightarrow> bool" where
  "py_isspace c \<longleftrightarrow>
     (9 \<le> c \<and> c \<le> 13) \<or> (28 \<le> c \<and> c \<le> 32) \<or> c = 133 \<or> c = 160 \<or> c = 5760 \<or>
     (8192 \<le> c \<and> c \<le> 8202) \<or> c = 8232 \<or> c = 8233 \<or> c = 8239 \<or> c = 8287 \<or>
     c = 12288"

definition py_strip :: "pystr \<Rightarrow> pystr" where
  "py_strip s = rev (dropWhile py_isspace (rev (dropWhile py_isspace s)))"

text \<open>\<open>s.replace('\n', ' ')\<close>: every line feed becomes a space.\<close>

definition replace_newlines :: "pystr \<Rightarrow> pystr" where
  "replace_newlines s = map (\<lambda>c. if c = 10 then 32 else c) s"

text \<open>\<open>sep.join(parts)\<close>.\<close>

fun py_join :: "pystr \<Rightarrow> pystr list \<Rightarrow> pystr" where
  "py_join sep [] = []"
| "py_join sep [x] = x"
| "py_join sep (x # y # ys) = x @ sep @ py_join sep (y # ys)"

text \<open>\<open>str(n)\<close> for an integer: decimal digits, with a minus sign when negative.\<close>

fun str_nat :: "nat \<Rightarrow> pystr" where
  "str_nat n = (if n < 10 then [48 + n] else str_nat (n div 10) @ [48 + n mod 10])"

declare str_nat.simps [simp del]

definition str_int :: "int \<Rightarrow> pystr" where
  "str_int i = (if i < 0 then 45 # str_nat (nat (- i)) else str_nat (nat i))"

text \<open>
  The values stored in a document's metadata. The loader and the chunker of this
  program store strings and integers there; the vector backend also admits booleans.
\<close>

datatype mval = MStr pystr | MInt int | MBool bool

text \<open>What an f-string field \<open>{v}\<close> renders for a metadata value.\<close>

fun py_str :: "mval \<Rightarrow> pystr" where
  "py_str (MStr s) = s"
| "py_str (MInt i) = str_int i"
| "py_str (MBool b) = (if b then ustr ''True'' else ustr ''False'')"

text \<open>
  The values of the result dictionaries. A Python \<open>float\<close> is represented by the
  rational number it denotes. A \<open>dict\<close> is an association list in insertion order:
  a literal lists its items, \<open>d[k] = v\<close> is \<open>AList.update k v d\<close> (replacing in
  place, or appending a new key), \<open>k in d\<close> is \<open>map_of d k \<noteq> None\<close>.
\<close>

datatype pyval =
    PBool bool
  | PInt int
  | PFloat rat
  | PStr pystr
  | PList "pyval list"
  | PTuple "pyval list"
  | PDict "(string \<times> pyval) list"

type_synonym pydict = "(string \<times> pyval) list"

fun of_mval :: "mval \<Rightarrow> pyval" where
  "of_mval (MStr s) = PStr s"
| "of_mval (MInt i) = PInt i"
| "of_mval (MBool b) = PBool b"

record document =
  page_content :: pystr
  metadata :: "(string \<times> mval) list"

text \<open>
  An exception that \<open>except Exception\<close> catches, with its \<open>str(e)\<close>. Signals outside
  \<open>Exception\<close> (an interrupt, an exit) are not modelled.
\<close>

datatype py_exn = Exception pystr

section \<open>The retrieval-augmented chain (rag\_chain.py)\<close>

text \<open>
  The collaborators of a \<open>RAGChain\<close> are parameters: \<open>retriever_invoke\<close> is
  \<open>self.retriever.invoke\<close>; \<open>model_invoke ctx question\<close> is the stage
  \<open>prompt | llm | StrOutputParser()\<close> applied to the two inputs of the fixed prompt
  template; \<open>chain_batch\<close> is \<open>self.chain.batch\<close>, which runs its inputs on a thread
  pool and is taken as one opaque call. Each returns a value or raises. Every call of
  a collaborator is recorded in a trace, threaded through the operations.
\<close>

record rag_chain =
  model_name :: pystr
  k_documents :: int
  retriever_invoke :: "pystr \<Rightarrow> py_exn + document list"
  model_invoke :: "pystr \<Rightarrow> pystr \<Rightarrow> py_exn + pystr"
  chain_batch :: "pystr list \<Rightarrow> py_exn + pystr list"

datatype event =
    RetrieverCall pystr
  | ModelCall pystr pystr
  | BatchCall "pystr list"

subsection \<open>\_format\_docs\<close>

definition source_of :: "document \<Rightarrow> pystr" where
  "source_of doc =
     (case map_of (metadata doc) ''source_file'' of
        None \<Rightarrow> ustr ''Unknown''
      | Some v \<Rightarrow> py_str v)"

text \<open>The f-string \<open>f"[Source {i}: {source}]\n{content}\n"\<close>.\<close>

definition format_entry :: "nat \<Rightarrow> document \<Rightarrow> pystr" where
  "format_entry i doc =
     ustr ''[Source '' @ str_nat i @ ustr '': '' @ source_of doc @ ustr '']'' @ [10]
       @ page_content doc @ [10]"

text \<open>
  The loop \<open>for i, doc in enumerate(docs, 1): formatted.append(...)\<close>, with the
  counter and the list built so far as arguments.
\<close>

fun format_docs_loop :: "nat \<Rightarrow> document list \<Rightarrow> pystr list \<Rightarrow> pystr list" where
  "format_docs_loop i [] formatted = formatted"
| "format_docs_loop i (doc # docs) formatted =
     format_docs_loop (Suc i) docs (formatted @ [format_entry i doc])"

definition format_docs :: "document list \<Rightarrow> pystr" where
  "format_docs docs = py_join [10] (format_docs_loop 1 docs [])"

subsection \<open>\_format\_sources\<close>

definition source_info :: "nat \<Rightarrow> document \<Rightarrow> pydict" where
  "source_info i doc =
     (let info =
        [(''index'', PInt (int i)),
         (''file'', (case map_of (metadata doc) ''source_file'' of
                       None \<Rightarrow> PStr (ustr ''Unknown'') | Some v \<Rightarrow> of_mval v)),
         (''chunk_id'', (case map_of (metadata doc) ''chunk_id'' of
                           None \<Rightarrow> PStr (ustr ''N/A'') | Some v \<Rightarrow> of_mval v)),
         (''preview'', PStr (replace_newlines (take 200 (page_content doc)) @ ustr ''...'')),
         (''full_content'', PStr (page_content doc))]
      in case map_of (metadata doc) ''page'' of
           None \<Rightarrow> info
         | Some p \<Rightarrow> AList.update ''page'' (of_mval p) info)"

fun format_sources_loop :: "nat \<Rightarrow> document list \<Rightarrow> pydict list \<Rightarrow> pydict list" where
  "format_sources_loop i [] sources = sources"
| "format_sources_loop i (doc # docs) sources =
     format_sources_loop (Suc i) docs (sources @ [source_info i doc])"

definition format_sources :: "document list \<Rightarrow> pydict list" where
  "format_sources documents = format_sources_loop 1 documents []"

subsection \<open>query\<close>

text \<open>
  \<open>self.chain.invoke(question)\<close>: the retriever, \<open>_format_docs\<close> on what it returns,
  then the model stage. The first collaborator that raises ends the call.
\<close>

definition chain_invoke :: "rag_chain \<Rightarrow> pystr \<Rightarrow> event list \<Rightarrow> (py_exn + pystr) \<times> event list" where
  "chain_invoke rc question tr =
     (case retriever_invoke rc question of
        Inl e \<Rightarrow> (Inl e, tr @ [RetrieverCall question])
      | Inr docs \<Rightarrow>
          (let ctx = format_docs docs in
             (model_invoke rc ctx question,
              tr @ [RetrieverCall question, ModelCall ctx question])))"

text \<open>
  \<open>query\<close> returns the result dictionary and the trace. \<open>elapsed\<close> stands for the
  seconds between the two \<open>datetime.now()\<close> readings, a value of the environment.
  The \<open>try\<close> block turns any raise of a collaborator into the failure dictionary.
\<close>

definition query_failure :: "pystr \<Rightarrow> py_exn \<Rightarrow> pydict" where
  "query_failure question e =
     (case e of Exception msg \<Rightarrow>
        [(''success'', PBool False), (''question'', PStr question), (''error'', PStr msg)])"

definition query :: "rag_chain \<Rightarrow> pystr \<Rightarrow> bool \<Rightarrow> rat \<Rightarrow> event list \<Rightarrow> pydict \<times> event list" where
  "query rc question return_sources elapsed tr =
     (if question = [] \<or> py_strip question = [] then
        ([(''success'', PBool False),
          (''error'', PStr (ustr ''Empty question provided''))], tr)
      else
        (let (retrieved, tr1) =
               (if return_sources
                then (retriever_invoke rc question, tr @ [RetrieverCall question])
                else (Inr [], tr))
         in case retrieved of
              Inl e \<Rightarrow> (query_failure question e, tr1)
            | Inr retrieved_docs \<Rightarrow>
               (case chain_invoke rc question tr1 of
                  (Inl e, tr2) \<Rightarrow> (query_failure question e, tr2)
                | (Inr answer, tr2) \<Rightarrow>
                    (let response =
                       [(''success'', PBool True),
                        (''question'', PStr question),
                        (''answer'', PStr answer),
                        (''processing_time'', PFloat elapsed),
                        (''model'', PStr (model_name rc))]
                     in if return_sources then
                          (let sources = format_sources retrieved_docs in
                             (AList.update ''num_sources'' (PInt (int (length sources)))
                                (AList.update ''sources'' (PList (map PDict sources)) response),
                              tr2))
                        else (response, tr2)))))"

subsection \<open>batch\_query\<close>

text \<open>
  The loop over \<open>zip(questions, answers)\<close>; with \<open>return_sources\<close> it calls the
  retriever once per question, and a raise there leaves the loop.
\<close>

fun batch_loop ::
  "rag_chain \<Rightarrow> bool \<Rightarrow> (pystr \<times> pystr) list \<Rightarrow> pydict list \<Rightarrow> event list
     \<Rightarrow> (py_exn + pydict list) \<times> event list" where
  "batch_loop rc return_sources [] results tr = (Inr results, tr)"
| "batch_loop rc return_sources ((question, answer) # rest) results tr =
     (let result =
        [(''success'', PBool True),
         (''question'', PStr question),
         (''answer'', PStr answer),
         (''model'', PStr (model_name rc))]
      in if return_sources then
           (case retriever_invoke rc question of
              Inl e \<Rightarrow> (Inl e, tr @ [RetrieverCall question])
            | Inr docs \<Rightarrow>
                batch_loop rc return_sources rest
                  (results @
                     [AList.update ''num_sources'' (PInt (int (length docs)))
                        (AList.update ''sources'' (PList (map PDict (format_sources docs))) result)])
                  (tr @ [RetrieverCall question]))
         else batch_loop rc return_sources rest (results @ [result]) tr)"

definition batch_failure :: "pystr list \<Rightarrow> py_exn \<Rightarrow> pydict list" where
  "batch_failure questions e =
     (case e of Exception msg \<Rightarrow>
        map (\<lambda>q. [(''success'', PBool False), (''question'', PStr q), (''error'', PStr msg)])
          questions)"

definition batch_query ::
  "rag_chain \<Rightarrow> pystr list \<Rightarrow> bool \<Rightarrow> event list \<Rightarrow> pydict list \<times> event list" where
  "batch_query rc questions return_sources tr =
     (case chain_batch rc questions of
        Inl e \<Rightarrow> (batch_failure questions e, tr @ [BatchCall questions])
      | Inr answers \<Rightarrow>
          (case batch_loop rc return_sources (zip questions answers) [] (tr @ [BatchCall questions]) of
             (Inl e, tr') \<Rightarrow> (batch_failure questions e, tr')
           | (Inr results, tr') \<Rightarrow> (results, tr')))"

text \<open>A chain with fixed collaborators, for concrete runs.\<close>

definition demo_docs :: "document list" where
  "demo_docs =
     [\<lparr>page_content = ustr ''Paris is the capital of France.'',
       metadata = [(''source_file'', MStr (ustr ''france.txt'')), (''chunk_id'', MInt 0)]\<rparr>,
      \<lparr>page_content = ustr ''Tokyo is the capital of Japan.'',
       metadata = [(''chunk_id'', MInt 1)]\<rparr>]"

definition demo_chain :: rag_chain where
  "demo_chain =
     \<lparr>model_name = ustr ''llama-3.3-70b-versatile'',
      k_documents = 4,
      retriever_invoke = (\<lambda>q. Inr demo_docs),
      model_invoke = (\<lambda>ctx q. Inr (ustr ''Paris'')),
      chain_batch = (\<lambda>qs. Inl (Exception (ustr ''rate limit'')))\<rparr>"

subsection \<open>The assembled context, as specified\<close>

text \<open>
  The specification's rendering of one retrieved chunk, and the blocks of a list of
  chunks from a first rank on, each block followed by an empty line before the next.
\<close>

definition rendered_block :: "nat \<Rightarrow> pystr \<Rightarrow> pystr \<Rightarrow> pystr" where
  "rendered_block rank source_file content =
     ustr ''[Source '' @ str_nat rank @ ustr '': '' @ source_file @ ustr '']'' @ [10]
       @ content @ [10]"

fun assembled_context :: "nat \<Rightarrow> document list \<Rightarrow> pystr" where
  "assembled_context rank [] = []"
| "assembled_context rank [d] = rendered_block rank (source_of d) (page_content d)"
| "assembled_context rank (d # d' # ds) =
     rendered_block rank (source_of d) (page_content d) @ [10]
       @ assembled_context (Suc rank) (d' # ds)"

section \<open>Python floats\<close>

text \<open>
  A Python \<open>float\<close> is an IEEE 754 binary64 number; a finite one is represented by the
  rational it denotes. Each arithmetic operation returns the exact result rounded to
  the nearest number with 53 significant bits, ties to the even significand. \<open>fl\<close> is
  that rounding. Overflow and subnormal numbers are outside the model: the floats of
  this program are sizes and counts of lists held in memory, times constants.
\<close>

text \<open>\<open>flog2 x\<close> is the integer \<open>e\<close> with \<open>2^e \<le> x < 2^(e+1)\<close>, for \<open>x > 0\<close>.\<close>

definition flog2 :: "rat \<Rightarrow> int" where
  "flog2 x =
     (let (a, b) = quotient_of x;
          d = int (floorlog 2 (nat a)) - int (floorlog 2 (nat b))
      in if 2 powi d \<le> x then d else d - 1)"

definition round_half_even :: "rat \<Rightarrow> int" where
  "round_half_even q =
     (let f = \<lfloor>q\<rfloor>; r = q - of_int f
      in if r < 1 / 2 then f
         else if 1 / 2 < r then f + 1
         else if even f then f else f + 1)"

definition fl_pos :: "rat \<Rightarrow> rat" where
  "fl_pos x = (let u = 2 powi (flog2 x - 52) in of_int (round_half_even (x / u)) * u)"

definition fl :: "rat \<Rightarrow> rat" where
  "fl x = (if x = 0 then 0 else if x < 0 then - fl_pos (- x) else fl_pos x)"

text \<open>\<open>x * y\<close> on floats, and on a float and an \<open>int\<close>, which is converted first.\<close>

definition float_mul :: "rat \<Rightarrow> rat \<Rightarrow> rat" where
  "float_mul x y = fl (x * y)"

definition float_of_int :: "int \<Rightarrow> rat" where
  "float_of_int i = fl (of_int i)"

text \<open>
  \<open>a / b\<close> on two \<open>int\<close>s: the exact quotient, rounded once; a zero divisor raises
  \<open>ZeroDivisionError\<close>.
\<close>

definition int_truediv :: "int \<Rightarrow> int \<Rightarrow> py_exn + rat" where
  "int_truediv a b =
     (if b = 0 then Inl (Exception (ustr ''division by zero''))
      else Inr (fl (of_int a / of_int b)))"

text \<open>\<open>int(x)\<close> on a float: truncation towards zero.\<close>

definition py_int :: "rat \<Rightarrow> int" where
  "py_int x = (if 0 \<le> x then \<lfloor>x\<rfloor> else \<lceil>x\<rceil>)"

text \<open>\<open>min\<close> and \<open>max\<close> of a list raise \<open>ValueError\<close> on the empty list.\<close>

definition py_min :: "int list \<Rightarrow> py_exn + int" where
  "py_min xs =
     (case xs of
        [] \<Rightarrow> Inl (Exception (ustr ''min() arg is an empty sequence''))
      | y # ys \<Rightarrow> Inr (fold min ys y))"

definition py_max :: "int list \<Rightarrow> py_exn + int" where
  "py_max xs =
     (case xs of
        [] \<Rightarrow> Inl (Exception (ustr ''max() arg is an empty sequence''))
      | y # ys \<Rightarrow> Inr (fold max ys y))"

section \<open>The chunker (text\_processor.py)\<close>

text \<open>
  \<open>s.split()\<close>: the maximal runs of characters that are not whitespace, in order.
  \<open>split_ws word rest\<close> scans \<open>rest\<close> with the run read so far in \<open>word\<close>.
\<close>

fun split_ws :: "pystr \<Rightarrow> pystr \<Rightarrow> pystr list" where
  "split_ws word [] = (if word = [] then [] else [word])"
| "split_ws word (c # cs) =
     (if py_isspace c then (if word = [] then split_ws [] cs else word # split_ws [] cs)
      else split_ws (word @ [c]) cs)"

definition py_split :: "pystr \<Rightarrow> pystr list" where
  "py_split s = split_ws [] s"

text \<open>
  A \<open>TextProcessor\<close>. Its splitter is langchain's \<open>RecursiveCharacterTextSplitter\<close>,
  a library outside the sources: \<open>split_documents\<close> stands for
  \<open>self.splitter.split_documents\<close>, which returns the chunks or raises. The library
  gives every chunk a metadata dictionary of its own, so the in-place updates of
  \<open>_enhance_chunk_metadata\<close> are updates of one chunk each.
\<close>

record text_processor =
  chunk_size :: int
  chunk_overlap :: int
  separators :: "pystr list"
  split_documents :: "document list \<Rightarrow> py_exn + document list"

subsection \<open>\_enhance\_chunk\_metadata\<close>

text \<open>
  The body of the loop, for the chunk at position \<open>idx\<close> (the source's \<open>id\<close>, which
  is the name of a HOL constant).
\<close>

definition reading_time_seconds :: "nat \<Rightarrow> int" where
  "reading_time_seconds word_count =
     py_int (float_mul (fl (of_nat word_count / 200)) (float_of_int 60))"

definition enhance_chunk :: "nat \<Rightarrow> document \<Rightarrow> document" where
  "enhance_chunk idx chunk =
     (let md1 = AList.update ''chunk_id'' (MInt (int idx)) (metadata chunk);
          md2 = AList.update ''chunk_size'' (MInt (int (length (page_content chunk)))) md1;
          word_count = length (py_split (page_content chunk));
          md3 = AList.update ''word_count'' (MInt (int word_count)) md2;
          md4 = AList.update ''reading_time_seconds''
                  (MInt (reading_time_seconds word_count)) md3;
          preview = replace_newlines (take 100 (page_content chunk));
          md5 = AList.update ''content_preview'' (MStr (preview @ ustr ''...'')) md4
      in chunk\<lparr>metadata := md5\<rparr>)"

fun enhance_loop :: "nat \<Rightarrow> document list \<Rightarrow> document list" where
  "enhance_loop idx [] = []"
| "enhance_loop idx (chunk # chunks) =
     enhance_chunk idx chunk # enhance_loop (Suc idx) chunks"

definition enhance_chunk_metadata :: "document list \<Rightarrow> document list" where
  "enhance_chunk_metadata chunks = enhance_loop 0 chunks"

subsection \<open>\_calculate\_statistics\<close>

text \<open>
  The statistics dictionary has five fixed keys and is a record here. The average is
  the integer \<open>0\<close> for no chunks and a float otherwise.
\<close>

record statistics =
  total_chunks :: int
  avg_chunk_size :: rat
  min_chunk_size :: int
  max_chunk_size :: int
  total_characters :: int

definition calculate_statistics :: "document list \<Rightarrow> py_exn + statistics" where
  "calculate_statistics chunks =
     (if chunks = [] then
        Inr \<lparr>total_chunks = 0, avg_chunk_size = 0, min_chunk_size = 0, max_chunk_size = 0,
             total_characters = 0\<rparr>
      else
        (let chunk_sizes = map (\<lambda>chunk. int (length (page_content chunk))) chunks in
           case int_truediv (sum_list chunk_sizes) (int (length chunk_sizes)) of
             Inl e \<Rightarrow> Inl e
           | Inr avg \<Rightarrow>
              (case py_min chunk_sizes of
                 Inl e \<Rightarrow> Inl e
               | Inr mn \<Rightarrow>
                  (case py_max chunk_sizes of
                     Inl e \<Rightarrow> Inl e
                   | Inr mx \<Rightarrow>
                       Inr \<lparr>total_chunks = int (length chunks), avg_chunk_size = avg,
                            min_chunk_size = mn, max_chunk_size = mx,
                            total_characters = sum_list chunk_sizes\<rparr>))))"

subsection \<open>process\_documents\<close>

text \<open>
  The statistics are computed for the log line only; a raise in them would still end
  the call.
\<close>

definition process_documents ::
  "text_processor \<Rightarrow> document list \<Rightarrow> bool \<Rightarrow> py_exn + document list" where
  "process_documents tp documents add_chunk_metadata =
     (if documents = [] then Inr []
      else
        (case split_documents tp documents of
           Inl e \<Rightarrow> Inl e
         | Inr chunks0 \<Rightarrow>
            (let chunks = (if add_chunk_metadata then enhance_chunk_metadata chunks0
                           else chunks0)
             in case calculate_statistics chunks of
                  Inl e \<Rightarrow> Inl e
                | Inr stats \<Rightarrow> Inr chunks)))"

definition process_single_document ::
  "text_processor \<Rightarrow> document \<Rightarrow> bool \<Rightarrow> py_exn + document list" where
  "process_single_document tp doc add_chunk_metadata =
     process_documents tp [doc] add_chunk_metadata"

text \<open>
  Modelled from the spec: the recursive splitter is not among the sources. Of a document
  without content the specification says that it yields no chunk and no error.
\<close>

definition splitter_drops_empty :: "(document list \<Rightarrow> py_exn + document list) \<Rightarrow> bool" where
  "splitter_drops_empty sp \<longleftrightarrow> (\<forall>d. page_content d = [] \<longrightarrow> sp [d] = Inr [])"

text \<open>
  The number of whitespace-delimited tokens of a string, as specified: the positions
  that hold a character which is not whitespace and which start the string or follow
  a whitespace character.
\<close>

definition token_start :: "pystr \<Rightarrow> nat \<Rightarrow> bool" where
  "token_start s i \<longleftrightarrow>
     \<not> py_isspace (s ! i) \<and> (if i = 0 then True else py_isspace (s ! (i - 1)))"

definition token_count :: "pystr \<Rightarrow> nat" where
  "token_count s = length (filter (token_start s) [0..<length s])"

text \<open>A splitter for concrete runs: one chunk per document that has content.\<close>

definition demo_splitter :: "document list \<Rightarrow> py_exn + document list" where
  "demo_splitter docs = Inr (filter (\<lambda>d. page_content d \<noteq> []) docs)"

definition demo_processor :: text_processor where
  "demo_processor =
     \<lparr>chunk_size = 1000, chunk_overlap = 200,
      separators = [[10, 10], [10], ustr ''. '', ustr ''! '', ustr ''? '', ustr ''; '',
                    ustr '', '', ustr '' '', []],
      split_documents = demo_splitter\<rparr>"

text \<open>
  Auxiliary: token starts when the character before position \<open>0\<close> is taken to be
  whitespace (\<open>p\<close>) or not, and their number.
\<close>

definition tok_after :: "bool \<Rightarrow> pystr \<Rightarrow> nat \<Rightarrow> bool" where
  "tok_after p s i \<longleftrightarrow>
     \<not> py_isspace (s ! i) \<and> (if i = 0 then p else py_isspace (s ! (i - 1)))"

definition count_after :: "bool \<Rightarrow> pystr \<Rightarrow> nat" where
  "count_after p s = length (filter (tok_after p s) [0..<length s])"

text \<open>Two documents for concrete runs of the chunker.\<close>

definition demo_documents :: "document list" where
  "demo_documents =
     [\<lparr>page_content = ustr ''Paris is the capital.\<newline>It is in France.'',
       metadata = [(''source_file'', MStr (ustr ''france.txt''))]\<rparr>,
      \<lparr>page_content = ustr ''tokyo is very big'',
       metadata = [(''source_file'', MStr (ustr ''japan.txt''))]\<rparr>]"

subsection \<open>analyze\_chunk\_quality\<close>

text \<open>
  The comparisons of the source mix an \<open>int\<close> with a float product: the \<open>int\<close>
  factor is converted to a float, the product is rounded, and the comparison with the
  \<open>int\<close> on the other side is exact. The literals \<open>0.3\<close>, \<open>1.5\<close>, \<open>0.1\<close> and
  \<open>0.15\<close> are the floats nearest to these decimals.
\<close>

definition too_small :: "text_processor \<Rightarrow> document list \<Rightarrow> document list" where
  "too_small tp chunks =
     filter (\<lambda>c. of_nat (length (page_content c))
                   < float_mul (float_of_int (chunk_size tp)) (fl (3 / 10))) chunks"

definition too_large :: "text_processor \<Rightarrow> document list \<Rightarrow> document list" where
  "too_large tp chunks =
     filter (\<lambda>c. float_mul (float_of_int (chunk_size tp)) (fl (3 / 2))
                   < of_nat (length (page_content c))) chunks"

text \<open>
  The loop \<open>for i in range(1, len(chunks))\<close> that collects the indices of the chunks
  whose content is not empty and starts with a lowercase character. \<open>islower\<close> stands
  for \<open>str.islower\<close> on one character, a table of the Python runtime.
\<close>

definition low_context_chunks :: "(nat \<Rightarrow> bool) \<Rightarrow> document list \<Rightarrow> nat list" where
  "low_context_chunks islower chunks =
     filter (\<lambda>i. let content = page_content (chunks ! i)
                 in content \<noteq> [] \<and> islower (content ! 0))
       [1..<length chunks]"

definition small_message :: "nat \<Rightarrow> pystr" where
  "small_message n =
     str_nat n @ ustr '' chunks are very small. ''
       @ ustr ''Consider reducing chunk_size or adjusting separators.''"

definition large_message :: "nat \<Rightarrow> pystr" where
  "large_message n =
     str_nat n @ ustr '' chunks are very large. ''
       @ ustr ''Consider increasing chunk_size or reviewing document structure.''"

definition low_context_message :: "nat \<Rightarrow> pystr" where
  "low_context_message n =
     str_nat n @ ustr '' chunks start mid-sentence. ''
       @ ustr ''Consider increasing chunk_overlap for better context.''"

definition good_message :: pystr where
  "good_message = ustr ''Chunk quality looks good!''"

text \<open>The recommendations list, through its appends in order.\<close>

definition recommendations :: "nat \<Rightarrow> nat \<Rightarrow> nat \<Rightarrow> nat \<Rightarrow> pystr list" where
  "recommendations n_small n_large n_low n_chunks =
     (let r0 = [];
          r1 = (if float_mul (float_of_int (int n_chunks)) (fl (1 / 10)) < of_nat n_small
                then r0 @ [small_message n_small] else r0);
          r2 = (if float_mul (float_of_int (int n_chunks)) (fl (1 / 10)) < of_nat n_large
                then r1 @ [large_message n_large] else r1);
          r3 = (if float_mul (float_of_int (int n_chunks)) (fl (15 / 100)) < of_nat n_low
                then r2 @ [low_context_message n_low] else r2)
      in if r3 = [] then r3 @ [good_message] else r3)"

definition analyze_chunk_quality ::
  "text_processor \<Rightarrow> (nat \<Rightarrow> bool) \<Rightarrow> document list \<Rightarrow> py_exn + pydict" where
  "analyze_chunk_quality tp islower chunks =
     (if chunks = [] then Inr [(''error'', PStr (ustr ''No chunk to analyze''))]
      else
        (case calculate_statistics chunks of
           Inl e \<Rightarrow> Inl e
         | Inr stats \<Rightarrow>
            (let n_small = length (too_small tp chunks);
                 n_large = length (too_large tp chunks);
                 n_low = length (low_context_chunks islower chunks)
             in Inr
                 [(''total_chunks'', PInt (total_chunks stats)),
                  (''average_size'', PInt (py_int (avg_chunk_size stats))),
                  (''size_range'',
                     PTuple [PInt (min_chunk_size stats), PInt (max_chunk_size stats)]),
                  (''quality_metrics'',
                     PDict [(''chunks_too_small'', PInt (int n_small)),
                            (''chunks_too_large'', PInt (int n_large)),
                            (''chunks_with_low_context'', PInt (int n_low))]),
                  (''recommendations'',
                     PList (map PStr
                              (recommendations n_small n_large n_low (length chunks))))])))"

subsection \<open>The quality report, as specified\<close>

text \<open>
  The three classes of the specification in exact arithmetic: too small is a content
  length below 0.3 times the chunk size, too large one above 1.5 times it, and
  low-context a chunk after the first whose first character is lowercase. A count
  exceeds a percentage of the total when \<open>100 * count > percent * total\<close>.
\<close>

definition is_too_small :: "int \<Rightarrow> document \<Rightarrow> bool" where
  "is_too_small csize c \<longleftrightarrow> 10 * int (length (page_content c)) < 3 * csize"

definition is_too_large :: "int \<Rightarrow> document \<Rightarrow> bool" where
  "is_too_large csize c \<longleftrightarrow> 2 * int (length (page_content c)) > 3 * csize"

definition is_low_context :: "(nat \<Rightarrow> bool) \<Rightarrow> document list \<Rightarrow> nat \<Rightarrow> bool" where
  "is_low_context islower chunks i \<longleftrightarrow>
     0 < i \<and> i < length chunks \<and> page_content (chunks ! i) \<noteq> [] \<and>
     islower (hd (page_content (chunks ! i)))"

definition exceeds_percent :: "nat \<Rightarrow> nat \<Rightarrow> nat \<Rightarrow> bool" where
  "exceeds_percent percent n n_total \<longleftrightarrow> 100 * n > percent * n_total"

definition specified_recommendations :: "nat \<Rightarrow> nat \<Rightarrow> nat \<Rightarrow> nat \<Rightarrow> pystr list" where
  "specified_recommendations n_small n_large n_low n_total =
     (let triggered =
            (if exceeds_percent 10 n_small n_total then [small_message n_small] else [])
          @ (if exceeds_percent 10 n_large n_total then [large_message n_large] else [])
          @ (if exceeds_percent 15 n_low n_total then [low_context_message n_low] else [])
      in if triggered = [] then [good_message] else triggered)"

text \<open>Chunks for a concrete report with chunk size 1000.\<close>

definition demo_chunks :: "document list" where
  "demo_chunks =
     [\<lparr>page_content = replicate 400 97, metadata = []\<rparr>,
      \<lparr>page_content = replicate 299 97, metadata = []\<rparr>,
      \<lparr>page_content = replicate 300 65, metadata = []\<rparr>,
      \<lparr>page_content = replicate 1501 97, metadata = []\<rparr>]"

definition ascii_islower :: "nat \<Rightarrow> bool" where
  "ascii_islower c \<longleftrightarrow> 97 \<le> c \<and> c \<le> 122"

section \<open>The vector index manager (vectorstore.py)\<close>

text \<open>
  The Chroma store behind a manager is a library. Its persisted collection is a list of
  records, and its operations are parameters that read that list and return a value or
  raise: \<open>count_records\<close> is \<open>_collection.count()\<close>, \<open>add_records batch\<close> is
  \<open>add_documents(batch)\<close>, which embeds and inserts and so returns the new collection,
  and \<open>search_records\<close> is \<open>similarity_search\<close> with an optional filter. The state
  threaded through the manager's operations is the collection and the trace of calls
  made to the library.
\<close>

type_synonym filter_dict = "(string \<times> mval) list"

record chroma =
  count_records :: "document list \<Rightarrow> py_exn + int"
  add_records :: "document list \<Rightarrow> document list \<Rightarrow> py_exn + document list"
  search_records ::
    "document list \<Rightarrow> pystr \<Rightarrow> int \<Rightarrow> filter_dict option \<Rightarrow> py_exn + document list"

datatype store_event =
    CountCall
  | AddCall "document list"
  | SearchCall pystr int "filter_dict option"

record store_state =
  collection :: "document list"
  calls :: "store_event list"

text \<open>
  \<open>self.vector_store\<close> is \<open>Optional[Chroma]\<close>: \<open>None\<close> or a store object, and a store
  object counts as true in \<open>if not self.vector_store\<close>.
\<close>

record vector_store_manager =
  embedding_model_name :: pystr
  persist_directory :: pystr
  collection_name :: pystr
  vector_store :: "chroma option"

definition logged :: "store_event \<Rightarrow> store_state \<Rightarrow> store_state" where
  "logged ev st = st\<lparr>calls := calls st @ [ev]\<rparr>"

subsection \<open>get\_document\_count\<close>

definition get_document_count :: "vector_store_manager \<Rightarrow> store_state \<Rightarrow> int \<times> store_state" where
  "get_document_count mgr st =
     (case vector_store mgr of
        None \<Rightarrow> (0, st)
      | Some vs \<Rightarrow>
          (case count_records vs (collection st) of
             Inl e \<Rightarrow> (0, logged CountCall st)
           | Inr n \<Rightarrow> (n, logged CountCall st)))"

subsection \<open>add\_documents\<close>

text \<open>
  The loop \<open>for i in range(0, len(documents), batch_size)\<close> for a positive step, from
  index \<open>i\<close> on. Each batch is \<open>documents[i:i + batch_size]\<close>. On a store that is
  \<open>None\<close> the attribute access raises. A raise leaves the batches inserted so far in
  the collection.
\<close>

function add_batches ::
  "chroma option \<Rightarrow> document list \<Rightarrow> nat \<Rightarrow> nat \<Rightarrow> store_state
     \<Rightarrow> (py_exn + unit) \<times> store_state" where
  "add_batches store documents batch_size i st =
     (if i < length documents \<and> 0 < batch_size then
        (let batch = take batch_size (drop i documents) in
           case store of
             None \<Rightarrow>
               (Inl (Exception ([39] @ ustr ''NoneType'' @ [39]
                      @ ustr '' object has no attribute '' @ [39] @ ustr ''add_documents'' @ [39])),
                st)
           | Some vs \<Rightarrow>
               (case add_records vs batch (collection st) of
                  Inl e \<Rightarrow> (Inl e, logged (AddCall batch) st)
                | Inr coll \<Rightarrow>
                    add_batches store documents batch_size (i + batch_size)
                      (logged (AddCall batch) (st\<lparr>collection := coll\<rparr>))))
      else (Inr (), st))"
  by pat_completeness auto
termination
  by (relation "measure (\<lambda>(store, documents, batch_size, i, st). length documents - i)") auto

declare add_batches.simps [simp del]

definition add_failure :: "py_exn \<Rightarrow> pydict" where
  "add_failure e =
     (case e of Exception msg \<Rightarrow> [(''success'', PBool False), (''error'', PStr msg)])"

text \<open>
  \<open>elapsed\<close> stands for the seconds between the two clock readings. A zero
  \<open>batch_size\<close> makes \<open>range\<close> raise, a negative one makes it empty.
\<close>

definition add_documents ::
  "vector_store_manager \<Rightarrow> document list \<Rightarrow> int \<Rightarrow> rat \<Rightarrow> store_state
     \<Rightarrow> pydict \<times> store_state" where
  "add_documents mgr documents batch_size elapsed st =
     (if documents = [] then
        ([(''success'', PBool False), (''error'', PStr (ustr ''No documents''))], st)
      else
        (let (initial_count, st1) = get_document_count mgr st;
             (looped, st2) =
               (if batch_size = 0 then
                  (Inl (Exception (ustr ''range() arg 3 must not be zero'')), st1)
                else if batch_size < 0 then (Inr (), st1)
                else add_batches (vector_store mgr) documents (nat batch_size) 0 st1)
         in case looped of
              Inl e \<Rightarrow> (add_failure e, st2)
            | Inr u \<Rightarrow>
                (let (final_count, st3) = get_document_count mgr st2;
                     added_count = final_count - initial_count
                 in ([(''success'', PBool True),
                      (''documents_added'', PInt added_count),
                      (''total_documents'', PInt final_count),
                      (''duration_seconds'', PFloat elapsed)], st3))))"

subsection \<open>similarity\_search\<close>

text \<open>
  \<open>if filter_dict\<close> holds for a dictionary that is neither \<open>None\<close> nor empty; only
  then is the filter passed on.
\<close>

definition applied_filter :: "filter_dict option \<Rightarrow> filter_dict option" where
  "applied_filter filter_dict =
     (case filter_dict of None \<Rightarrow> None | Some f \<Rightarrow> (if f = [] then None else Some f))"

text \<open>
  The result is a sum so that a raise which reached the caller would be a value
  \<open>Inl\<close>.
\<close>

definition similarity_search ::
  "vector_store_manager \<Rightarrow> pystr \<Rightarrow> int \<Rightarrow> filter_dict option \<Rightarrow> store_state
     \<Rightarrow> (py_exn + document list) \<times> store_state" where
  "similarity_search mgr query_text k filter_dict st =
     (case vector_store mgr of
        None \<Rightarrow> (Inr [], st)
      | Some vs \<Rightarrow>
          (let flt = applied_filter filter_dict;
               st' = logged (SearchCall query_text k flt) st
           in case search_records vs (collection st) query_text k flt of
                Inl e \<Rightarrow> (Inr [], st')
              | Inr results \<Rightarrow> (Inr results, st')))"

text \<open>
  A store for concrete runs: it counts and appends honestly, and its search fails for
  the query \<open>boom\<close> and otherwise returns the first \<open>k\<close> records.
\<close>

definition demo_store :: chroma where
  "demo_store =
     \<lparr>count_records = (\<lambda>coll. Inr (int (length coll))),
      add_records = (\<lambda>batch coll. Inr (coll @ batch)),
      search_records = (\<lambda>coll q k flt.
         if q = ustr ''boom'' then Inl (Exception (ustr ''backend down''))
         else Inr (take (nat k) coll))\<rparr>"

definition demo_manager :: vector_store_manager where
  "demo_manager =
     \<lparr>embedding_model_name = ustr ''sentence-transformers/all-MiniLM-L6-v2'',
      persist_directory = ustr ''./data/chroma_db'',
      collection_name = ustr ''Langchain'',
      vector_store = Some demo_store\<rparr>"

definition demo_state :: store_state where
  "demo_state = \<lparr>collection = demo_docs, calls = []\<rparr>"

section \<open>Properties\<close>

subsection \<open>The chain\<close>

lemma strip_blank: "\<forall>c\<in>set s. py_isspace c \<Longrightarrow> py_strip s = []"
proof -
  assume "\<forall>c\<in>set s. py_isspace c"
  then have d: "dropWhile py_isspace s = []"
    using dropWhile_eq_Nil_conv [of py_isspace s] by blast
  show ?thesis
    unfolding py_strip_def d by simp
qed

lemma strip_nonblank:
  assumes "\<not> (\<forall>c\<in>set s. py_isspace c)"
  shows "py_strip s \<noteq> []"
proof -
  have a: "dropWhile py_isspace s \<noteq> []"
    using assms dropWhile_eq_Nil_conv [of py_isspace s] by blast
  have b: "\<not> py_isspace (hd (dropWhile py_isspace s))"
    using a by (rule hd_dropWhile)
  have "hd (dropWhile py_isspace s) \<in> set (rev (dropWhile py_isspace s))"
    using a by simp
  then have "dropWhile py_isspace (rev (dropWhile py_isspace s)) \<noteq> []"
    using b dropWhile_eq_Nil_conv [of py_isspace "rev (dropWhile py_isspace s)"] by blast
  then show ?thesis by (simp add: py_strip_def)
qed

text \<open>
  C1. A question that is empty or has only whitespace characters gets the failure
  dictionary \<open>{'success': False, 'error': 'Empty question provided'}\<close>, and the trace
  of collaborator calls is returned as it was: neither the retriever nor the model is
  called, whatever they are.
\<close>

theorem query_blank_question:
  assumes "\<forall>c\<in>set question. py_isspace c"
  shows "query rc question return_sources elapsed tr =
           ([(''success'', PBool False),
             (''error'', PStr (ustr ''Empty question provided''))], tr)"
  using assms by (simp add: query_def strip_blank)

theorem query_blank_question_witness:
  "fst (query demo_chain (ustr ''   '') True 0 []) =
     [(''success'', PBool False), (''error'', PStr (ustr ''Empty question provided''))] \<and>
   map_of (fst (query demo_chain (ustr ''   '') True 0 [])) ''success'' = Some (PBool False) \<and>
   snd (query demo_chain (ustr ''   '') True 0 []) = [] \<and>
   map_of (fst (query demo_chain [] True 0 [])) ''success'' = Some (PBool False) \<and>
   snd (query demo_chain [] True 0 []) = []"
proof -
  have h: "\<forall>c\<in>set (ustr ''   ''). py_isspace c"
    by (simp add: ustr_def py_isspace_def)
  have e: "\<forall>c\<in>set ([]::pystr). py_isspace c"
    by simp
  show ?thesis
    using query_blank_question [OF h, of demo_chain True 0 "[]"]
      query_blank_question [OF e, of demo_chain True 0 "[]"]
    by simp
qed

text \<open>
  C7. The claim fails at the blank question: its result has no \<open>question\<close> key.
\<close>

theorem query_question_field_counterexample:
  "map_of (fst (query demo_chain (ustr ''   '') True 0 [])) ''question'' = None"
  by (simp add: query_def py_strip_def ustr_def py_isspace_def)

text \<open>
  C7 as amended. For a question that is not blank the result carries the question it
  was asked; for a blank question the result has no \<open>question\<close> key; and in every
  result the \<open>success\<close> flag is present and the \<open>error\<close> key is present exactly
  when the flag is false.
\<close>

theorem query_result_fields:
  "(\<not> (\<forall>c\<in>set question. py_isspace c) \<longrightarrow>
      map_of (fst (query rc question return_sources elapsed tr)) ''question''
        = Some (PStr question)) \<and>
   ((\<forall>c\<in>set question. py_isspace c) \<longrightarrow>
      map_of (fst (query rc question return_sources elapsed tr)) ''question'' = None) \<and>
   (\<exists>b. map_of (fst (query rc question return_sources elapsed tr)) ''success''
        = Some (PBool b)) \<and>
   ((map_of (fst (query rc question return_sources elapsed tr)) ''error'' \<noteq> None)
      = (map_of (fst (query rc question return_sources elapsed tr)) ''success''
           = Some (PBool False)))"
proof (cases "\<forall>c\<in>set question. py_isspace c")
  case True
  then show ?thesis
    by (auto simp: query_def strip_blank)
next
  case False
  then have nb: "question \<noteq> []" "py_strip question \<noteq> []"
    using strip_nonblank [of question] by auto
  show ?thesis
    using False nb
    by (cases return_sources; cases "retriever_invoke rc question")
       (auto simp: query_def query_failure_def chain_invoke_def Let_def update_conv
             split: sum.splits py_exn.splits prod.splits)
qed

theorem query_result_fields_witness:
  "map_of (fst (query demo_chain (ustr ''capital of France?'') True 2 [])) ''question''
     = Some (PStr (ustr ''capital of France?'')) \<and>
   map_of (fst (query demo_chain (ustr ''capital of France?'') True 2 [])) ''success''
     = Some (PBool True) \<and>
   map_of (fst (query demo_chain (ustr ''capital of France?'') True 2 [])) ''error'' = None \<and>
   map_of (fst (query demo_chain [] True 2 [])) ''question'' = None \<and>
   map_of (fst (query demo_chain [] True 2 [])) ''error'' \<noteq> None"
proof -
  have nb: "\<not> (\<forall>c\<in>set (ustr ''capital of France?''). py_isspace c)"
    by (simp add: ustr_def py_isspace_def)
  have s: "map_of (fst (query demo_chain (ustr ''capital of France?'') True 2 [])) ''success''
     = Some (PBool True)"
    by (simp add: query_def query_failure_def chain_invoke_def Let_def update_conv
          demo_chain_def py_strip_def ustr_def py_isspace_def)
  have e: "\<forall>c\<in>set ([]::pystr). py_isspace c" by simp
  note a = query_result_fields [of "ustr ''capital of France?''" demo_chain True 2 "[]"]
  note b = query_result_fields [of "[]" demo_chain True 2 "[]"]
  have 1: "map_of (fst (query demo_chain (ustr ''capital of France?'') True 2 [])) ''question''
     = Some (PStr (ustr ''capital of France?''))"
    using a nb by blast
  have 2: "map_of (fst (query demo_chain (ustr ''capital of France?'') True 2 [])) ''error'' = None"
    using a s by auto
  have 3: "map_of (fst (query demo_chain [] True 2 [])) ''question'' = None"
    using b e by blast
  have 4: "map_of (fst (query demo_chain [] True 2 [])) ''error'' \<noteq> None"
    by (simp add: query_def)
  show ?thesis using 1 2 3 4 s by blast
qed

lemma format_docs_loop_acc:
  "format_docs_loop i docs formatted = formatted @ format_docs_loop i docs []"
proof (induction docs arbitrary: i formatted)
  case Nil
  show ?case by simp
next
  case (Cons d ds)
  have "format_docs_loop i (d # ds) formatted
          = (formatted @ [format_entry i d]) @ format_docs_loop (Suc i) ds []"
    using Cons.IH [of "Suc i" "formatted @ [format_entry i d]"] by simp
  also have "\<dots> = formatted @ format_docs_loop i (d # ds) []"
    using Cons.IH [of "Suc i" "[format_entry i d]"] by simp
  finally show ?case .
qed

lemma format_docs_loop_Cons:
  "format_docs_loop i (d # ds) [] = format_entry i d # format_docs_loop (Suc i) ds []"
  using format_docs_loop_acc [of "Suc i" ds "[format_entry i d]"] by simp

lemma join_loop_context:
  "py_join [10] (format_docs_loop i docs []) = assembled_context i docs"
proof (induction i docs rule: assembled_context.induct)
  case (1 rank)
  show ?case by simp
next
  case (2 rank d)
  show ?case by (simp add: format_entry_def rendered_block_def)
next
  case (3 rank d d' ds)
  have "py_join [10] (format_docs_loop rank (d # d' # ds) [])
          = py_join [10] (format_entry rank d # format_entry (Suc rank) d'
                            # format_docs_loop (Suc (Suc rank)) ds [])"
    by (simp only: format_docs_loop_Cons)
  also have "\<dots> = format_entry rank d @ [10]
                 @ py_join [10] (format_docs_loop (Suc rank) (d' # ds) [])"
    by (simp only: format_docs_loop_Cons py_join.simps)
  finally show ?case
    using 3 by (simp add: format_entry_def rendered_block_def)
qed

text \<open>
  C3. The context string of a list of retrieved chunks is the specified one: the block
  \<open>[Source rank: source_file]\<close>, a line feed, the content and a line feed for each
  chunk, ranks counted from 1 in the order of the list, consecutive blocks one empty
  line apart. The source rendered is \<open>Unknown\<close> for a chunk without \<open>source_file\<close>
  and the file name for a chunk that has one.
\<close>

theorem format_docs_context:
  "format_docs docs = assembled_context 1 docs \<and>
   (map_of (metadata d) ''source_file'' = None \<longrightarrow> source_of d = ustr ''Unknown'') \<and>
   (map_of (metadata d) ''source_file'' = Some (MStr name) \<longrightarrow> source_of d = name)"
  by (simp add: format_docs_def join_loop_context source_of_def)


theorem format_docs_context_witness:
  "format_docs demo_docs =
     ustr ''[Source 1: france.txt]\<newline>Paris is the capital of France.\<newline>\<newline>[Source 2: Unknown]\<newline>Tokyo is the capital of Japan.\<newline>''"
proof -
  have u: "map_of (metadata (demo_docs ! 1)) ''source_file'' = None"
    by (simp add: demo_docs_def)
  have f: "map_of (metadata (demo_docs ! 0)) ''source_file'' = Some (MStr (ustr ''france.txt''))"
    by (simp add: demo_docs_def)
  note t1 = format_docs_context [of demo_docs "demo_docs ! 1" "[]"]
  note t0 = format_docs_context [of demo_docs "demo_docs ! 0" "ustr ''france.txt''"]
  have s1: "source_of (demo_docs ! 1) = ustr ''Unknown''" using t1 u by blast
  have s0: "source_of (demo_docs ! 0) = ustr ''france.txt''" using t0 f by blast
  have "format_docs demo_docs = assembled_context 1 demo_docs" using t1 by blast
  also have "\<dots> = rendered_block 1 (source_of (demo_docs ! 0)) (page_content (demo_docs ! 0)) @ [10]
                 @ rendered_block 2 (source_of (demo_docs ! 1)) (page_content (demo_docs ! 1))"
    by (simp add: demo_docs_def numeral_2_eq_2)
  finally show ?thesis
    unfolding s0 s1
    by (simp add: rendered_block_def demo_docs_def ustr_def str_nat.simps)
qed

text \<open>
  C6. When the batch call of the chain raises, \<open>batch_query\<close> returns one failure
  dictionary per question, in order, each with \<open>success\<close> false, its question and the
  description of that one exception; none reports success.
\<close>

theorem batch_query_failure:
  assumes "chain_batch rc questions = Inl (Exception msg)"
  shows "fst (batch_query rc questions return_sources tr) =
           map (\<lambda>q. [(''success'', PBool False), (''question'', PStr q), (''error'', PStr msg)])
             questions \<and>
         length (fst (batch_query rc questions return_sources tr)) = length questions \<and>
         (\<forall>r \<in> set (fst (batch_query rc questions return_sources tr)).
            map_of r ''success'' = Some (PBool False) \<and> map_of r ''error'' = Some (PStr msg))"
  using assms by (auto simp: batch_query_def batch_failure_def)

theorem batch_query_failure_witness:
  "chain_batch demo_chain [ustr ''a?'', ustr ''b?''] = Inl (Exception (ustr ''rate limit'')) \<and>
   fst (batch_query demo_chain [ustr ''a?'', ustr ''b?''] False []) =
     [[(''success'', PBool False), (''question'', PStr (ustr ''a?'')),
       (''error'', PStr (ustr ''rate limit''))],
      [(''success'', PBool False), (''question'', PStr (ustr ''b?'')),
       (''error'', PStr (ustr ''rate limit''))]]"
proof -
  have h: "chain_batch demo_chain [ustr ''a?'', ustr ''b?''] = Inl (Exception (ustr ''rate limit''))"
    by (simp add: demo_chain_def)
  show ?thesis
    using h batch_query_failure [OF h, of False "[]"] by simp
qed

subsection \<open>Rounding to a float\<close>

lemma two_powi_pos: "(0::rat) < 2 powi k"
  by (simp add: zero_less_power_int)

lemma two_powi_mono: "a \<le> b \<Longrightarrow> (2::rat) powi a \<le> 2 powi b"
  by (rule power_int_increasing) simp_all

lemma two_powi_less: "(2::rat) powi a < 2 powi b \<Longrightarrow> a < b"
  by (metis linorder_not_less two_powi_mono)

lemma two_powi_add: "(2::rat) powi (a + b) = 2 powi a * 2 powi b"
  by (simp add: power_int_add)

lemma two_powi_diff: "(2::rat) powi (a - b) = 2 powi a / 2 powi b"
  by (simp add: power_int_diff)

lemma flog2_bounds:
  assumes "0 < x"
  shows "2 powi (flog2 x) \<le> x \<and> x < 2 powi (flog2 x + 1)"
proof -
  obtain a b where q: "quotient_of x = (a, b)"
    by (cases "quotient_of x")
  have b: "0 < b" using q by (rule quotient_of_denom_pos)
  have x: "x = of_int a / of_int b" using q by (rule quotient_of_div)
  have a: "0 < a"
    using assms b x by (simp add: zero_less_divide_iff)
  define la where "la = floorlog 2 (nat a)"
  define lb where "lb = floorlog 2 (nat b)"
  have ba: "2 ^ (la - 1) \<le> nat a \<and> nat a < 2 ^ la"
    unfolding la_def using a floorlog_bounds [of "nat a" 2] by simp
  have bb: "2 ^ (lb - 1) \<le> nat b \<and> nat b < 2 ^ lb"
    unfolding lb_def using b floorlog_bounds [of "nat b" 2] by simp
  have la: "0 < la" using ba a by (cases la) auto
  have lb: "0 < lb" using bb b by (cases lb) auto
  have ra: "(2::rat) ^ (la - 1) \<le> of_int a \<and> (of_int a :: rat) < 2 ^ la"
  proof -
    have "(of_nat (2 ^ (la - 1)) :: rat) \<le> of_nat (nat a) \<and> (of_nat (nat a) :: rat) < of_nat (2 ^ la)"
      using ba by (simp only: of_nat_le_iff of_nat_less_iff)
    then show ?thesis using a by simp
  qed
  have rb: "(2::rat) ^ (lb - 1) \<le> of_int b \<and> (of_int b :: rat) < 2 ^ lb"
  proof -
    have "(of_nat (2 ^ (lb - 1)) :: rat) \<le> of_nat (nat b) \<and> (of_nat (nat b) :: rat) < of_nat (2 ^ lb)"
      using bb by (simp only: of_nat_le_iff of_nat_less_iff)
    then show ?thesis using b by simp
  qed
  define d where "d = int la - int lb"
  have bpos: "(0::rat) < of_int b" using b by simp
  have lo: "2 powi (d - 1) \<le> x"
  proof -
    have "(2::rat) powi (d - 1) = 2 ^ (la - 1) / 2 ^ lb"
    proof -
      have "d - 1 = int (la - 1) - int lb" using la by (simp add: d_def)
      then show ?thesis by (simp add: two_powi_diff)
    qed
    also have "\<dots> \<le> of_int a / 2 ^ lb"
      using ra by (simp add: divide_right_mono)
    also have "\<dots> \<le> of_int a / of_int b"
      using rb a bpos by (intro divide_left_mono) (simp_all add: less_imp_le)
    finally show ?thesis using x by simp
  qed
  have hi: "x < 2 powi (d + 1)"
  proof -
    have "x = of_int a / of_int b" by (rule x)
    also have "\<dots> < 2 ^ la / of_int b"
      using ra bpos by (simp add: divide_strict_right_mono)
    also have "\<dots> \<le> 2 ^ la / 2 ^ (lb - 1)"
      using rb bpos by (intro divide_left_mono) simp_all
    also have "\<dots> = 2 powi (d + 1)"
    proof -
      have "d + 1 = int la - int (lb - 1)" using lb by (simp add: d_def)
      then show ?thesis by (simp add: two_powi_diff)
    qed
    finally show ?thesis .
  qed
  have f: "flog2 x = (if 2 powi d \<le> x then d else d - 1)"
    by (simp add: flog2_def q Let_def la_def lb_def d_def)
  show ?thesis
  proof (cases "2 powi d \<le> x")
    case True
    then show ?thesis using f hi by simp
  next
    case False
    then show ?thesis using f lo by simp
  qed
qed

lemma flog2_unique:
  assumes "0 < x" "2 powi e \<le> x" "x < 2 powi (e + 1)"
  shows "flog2 x = e"
proof -
  have b: "2 powi (flog2 x) \<le> x" "x < 2 powi (flog2 x + 1)"
    using flog2_bounds [OF assms(1)] by simp_all
  have "(2::rat) powi e < 2 powi (flog2 x + 1)" using assms(2) b(2) by simp
  then have 1: "e < flog2 x + 1" by (rule two_powi_less)
  have "(2::rat) powi (flog2 x) < 2 powi (e + 1)" using assms(3) b(1) by simp
  then have 2: "flog2 x < e + 1" by (rule two_powi_less)
  show ?thesis using 1 2 by simp
qed

lemma rhe_error: "\<bar>of_int (round_half_even q) - q\<bar> \<le> 1 / 2"
proof -
  have "of_int \<lfloor>q\<rfloor> \<le> q" "q < of_int \<lfloor>q\<rfloor> + 1"
    by linarith+
  then show ?thesis
    by (auto simp: round_half_even_def Let_def)
qed

lemma rhe_unique:
  assumes "\<bar>q - of_int m\<bar> < 1 / 2"
  shows "round_half_even q = m"
proof -
  have "\<bar>of_int (round_half_even q) - q\<bar> \<le> 1 / 2" by (rule rhe_error)
  then have "\<bar>(of_int (round_half_even q) :: rat) - of_int m\<bar> < 1"
    using assms by linarith
  then have "\<bar>(of_int (round_half_even q - m) :: rat)\<bar> < 1"
    by simp
  then have "\<bar>round_half_even q - m\<bar> < 1"
    by (metis of_int_abs of_int_less_1_iff)
  then show ?thesis by simp
qed

lemma rhe_le:
  assumes "q \<le> of_int M"
  shows "round_half_even q \<le> M"
proof -
  have f: "\<lfloor>q\<rfloor> \<le> M" using assms by (simp add: floor_le_iff)
  have l: "of_int \<lfloor>q\<rfloor> \<le> q" by linarith
  show ?thesis
  proof (cases "\<lfloor>q\<rfloor> = M")
    case True
    then have "q = of_int \<lfloor>q\<rfloor>" using assms l by simp
    then show ?thesis using True by (simp add: round_half_even_def Let_def)
  next
    case False
    then have "\<lfloor>q\<rfloor> + 1 \<le> M" using f by simp
    then show ?thesis by (auto simp: round_half_even_def Let_def)
  qed
qed

lemma rhe_ge:
  assumes "of_int M \<le> q"
  shows "M \<le> round_half_even q"
proof -
  have "M \<le> \<lfloor>q\<rfloor>" using assms by (simp add: le_floor_iff)
  then show ?thesis by (auto simp: round_half_even_def Let_def)
qed

lemma fl_pos_eq: "0 < x \<Longrightarrow> fl x = fl_pos x"
  by (simp add: fl_def)

lemma fl_unique:
  assumes "0 < x" "2 powi (k + 52) \<le> x" "x < 2 powi (k + 53)"
    and "\<bar>x / 2 powi k - of_int m\<bar> < 1 / 2"
  shows "fl x = of_int m * 2 powi k"
proof -
  have "flog2 x = k + 52"
    using assms(1-3) by (intro flog2_unique) (simp_all add: add.commute add.left_commute)
  then have "fl_pos x = of_int (round_half_even (x / 2 powi k)) * 2 powi k"
    by (simp add: fl_pos_def Let_def)
  then show ?thesis
    using rhe_unique [OF assms(4)] assms(1) by (simp add: fl_pos_eq)
qed

lemma fl_error:
  assumes "0 < x"
  shows "\<bar>fl x - x\<bar> \<le> x / 2 ^ 53"
proof -
  define u :: rat where "u = 2 powi (flog2 x - 52)"
  have u: "0 < u" by (simp add: u_def two_powi_pos)
  have "2 powi (flog2 x) \<le> x" using flog2_bounds [OF assms] by simp
  moreover have "(2::rat) powi (flog2 x) = u * 2 ^ 52"
    by (simp add: u_def two_powi_diff)
  ultimately have ux: "u * 2 ^ 52 \<le> x" by simp
  have f: "fl x = of_int (round_half_even (x / u)) * u"
    using assms by (simp add: fl_pos_eq fl_pos_def u_def Let_def)
  have "\<bar>of_int (round_half_even (x / u)) - x / u\<bar> \<le> 1 / 2" by (rule rhe_error)
  then have "\<bar>of_int (round_half_even (x / u)) - x / u\<bar> * u \<le> 1 / 2 * u"
    using u by (intro mult_right_mono) simp_all
  moreover have "\<bar>of_int (round_half_even (x / u)) - x / u\<bar> * u = \<bar>fl x - x\<bar>"
  proof -
    have "\<bar>of_int (round_half_even (x / u)) - x / u\<bar> * u
            = \<bar>(of_int (round_half_even (x / u)) - x / u) * u\<bar>"
      using u by (simp add: abs_mult)
    also have "(of_int (round_half_even (x / u)) - x / u) * u = fl x - x"
      using u by (simp add: f left_diff_distrib)
    finally show ?thesis .
  qed
  ultimately have "\<bar>fl x - x\<bar> \<le> u / 2" by simp
  moreover have "u / 2 \<le> x / 2 ^ 53" using ux by simp
  ultimately show ?thesis by linarith
qed

lemma grid_int:
  assumes "e - 52 \<le> j"
  shows "of_int M * 2 powi j / 2 powi (e - 52) = (of_int (M * 2 ^ nat (j - (e - 52))) :: rat)"
proof -
  have "(2::rat) powi j / 2 powi (e - 52) = 2 powi (j - (e - 52))"
    by (simp add: two_powi_diff)
  also have "\<dots> = 2 ^ nat (j - (e - 52))"
    using assms by (simp add: power_int_def)
  finally have r: "(2::rat) powi j / 2 powi (e - 52) = 2 ^ nat (j - (e - 52))" .
  have "of_int M * 2 powi j / 2 powi (e - 52) = (of_int M :: rat) * (2 powi j / 2 powi (e - 52))"
    by simp
  also have "\<dots> = of_int M * 2 ^ nat (j - (e - 52))"
    by (simp only: r)
  finally show ?thesis by simp
qed

lemma fl_le_grid:
  assumes "0 < x" "x \<le> of_int M * 2 powi j" "x < 2 powi (j + 53)"
  shows "fl x \<le> of_int M * 2 powi j"
proof -
  define e where "e = flog2 x"
  define u :: rat where "u = 2 powi (e - 52)"
  have u: "0 < u" by (simp add: u_def two_powi_pos)
  have "2 powi e \<le> x" using flog2_bounds [OF assms(1)] by (simp add: e_def)
  then have "(2::rat) powi e < 2 powi (j + 53)" using assms(3) by simp
  then have ej: "e - 52 \<le> j" using two_powi_less [of e "j + 53"] by simp
  have g: "of_int M * 2 powi j / u = of_int (M * 2 ^ nat (j - (e - 52)))"
    unfolding u_def by (rule grid_int [OF ej])
  have "x / u \<le> of_int M * 2 powi j / u"
    using assms(2) u by (simp add: divide_right_mono)
  then have "round_half_even (x / u) \<le> M * 2 ^ nat (j - (e - 52))"
    unfolding g by (rule rhe_le)
  then have "(of_int (round_half_even (x / u)) :: rat) \<le> of_int (M * 2 ^ nat (j - (e - 52)))"
    by (simp only: of_int_le_iff)
  then have "of_int (round_half_even (x / u)) * u \<le> (of_int M * 2 powi j / u) * u"
    unfolding g [symmetric] using u by (intro mult_right_mono) simp_all
  moreover have "fl x = of_int (round_half_even (x / u)) * u"
    using assms(1) by (simp add: fl_pos_eq fl_pos_def u_def e_def Let_def)
  ultimately show ?thesis using u by simp
qed

lemma fl_ge_grid:
  assumes "0 < x" "of_int M * 2 powi j \<le> x" "x < 2 powi (j + 53)"
  shows "of_int M * 2 powi j \<le> fl x"
proof -
  define e where "e = flog2 x"
  define u :: rat where "u = 2 powi (e - 52)"
  have u: "0 < u" by (simp add: u_def two_powi_pos)
  have "2 powi e \<le> x" using flog2_bounds [OF assms(1)] by (simp add: e_def)
  then have "(2::rat) powi e < 2 powi (j + 53)" using assms(3) by simp
  then have ej: "e - 52 \<le> j" using two_powi_less [of e "j + 53"] by simp
  have g: "of_int M * 2 powi j / u = of_int (M * 2 ^ nat (j - (e - 52)))"
    unfolding u_def by (rule grid_int [OF ej])
  have "of_int M * 2 powi j / u \<le> x / u"
    using assms(2) u by (simp add: divide_right_mono)
  then have "M * 2 ^ nat (j - (e - 52)) \<le> round_half_even (x / u)"
    unfolding g by (rule rhe_ge)
  then have "(of_int (M * 2 ^ nat (j - (e - 52))) :: rat) \<le> of_int (round_half_even (x / u))"
    by (simp only: of_int_le_iff)
  then have "(of_int M * 2 powi j / u) * u \<le> of_int (round_half_even (x / u)) * u"
    unfolding g [symmetric] using u by (intro mult_right_mono) simp_all
  moreover have "fl x = of_int (round_half_even (x / u)) * u"
    using assms(1) by (simp add: fl_pos_eq fl_pos_def u_def e_def Let_def)
  ultimately show ?thesis using u by simp
qed

lemma fl_exact:
  assumes "0 < M" "of_int M * 2 powi j < (2::rat) powi (j + 53)"
  shows "fl (of_int M * 2 powi j) = of_int M * 2 powi j"
proof -
  have p: "(0::rat) < of_int M * 2 powi j"
    using assms(1) by (simp add: two_powi_pos)
  show ?thesis
    using fl_le_grid [OF p order_refl assms(2)] fl_ge_grid [OF p order_refl assms(2)]
    by simp
qed

lemma fl_nearest_grid:
  assumes "0 < x" "x < 2 powi (j + 53)"
    and "\<bar>x - of_int M * 2 powi j\<bar> < 2 powi (flog2 x) / 2 ^ 53"
  shows "fl x = of_int M * 2 powi j"
proof -
  define e where "e = flog2 x"
  define u :: rat where "u = 2 powi (e - 52)"
  have u: "0 < u" by (simp add: u_def two_powi_pos)
  have "2 powi e \<le> x" using flog2_bounds [OF assms(1)] by (simp add: e_def)
  then have "(2::rat) powi e < 2 powi (j + 53)" using assms(2) by simp
  then have ej: "e - 52 \<le> j" using two_powi_less [of e "j + 53"] by simp
  have g: "of_int M * 2 powi j / u = of_int (M * 2 ^ nat (j - (e - 52)))"
    unfolding u_def by (rule grid_int [OF ej])
  have hu: "(2::rat) powi e / 2 ^ 53 = u / 2"
    by (simp add: u_def two_powi_diff)
  have "\<bar>x - of_int M * 2 powi j\<bar> / u < (u / 2) / u"
    using assms(3) u unfolding e_def [symmetric] hu by (simp add: divide_strict_right_mono)
  moreover have "\<bar>x - of_int M * 2 powi j\<bar> / u = \<bar>x / u - of_int M * 2 powi j / u\<bar>"
    using u by (simp add: abs_divide diff_divide_distrib [symmetric])
  ultimately have "\<bar>x / u - of_int (M * 2 ^ nat (j - (e - 52)))\<bar> < 1 / 2"
    unfolding g using u by simp
  then have "round_half_even (x / u) = M * 2 ^ nat (j - (e - 52))"
    by (rule rhe_unique)
  then have "of_int (round_half_even (x / u)) * u = (of_int M * 2 powi j / u) * u"
    unfolding g by simp
  moreover have "fl x = of_int (round_half_even (x / u)) * u"
    using assms(1) by (simp add: fl_pos_eq fl_pos_def u_def e_def Let_def)
  ultimately show ?thesis using u by simp
qed

lemma fl_eval:
  assumes "0 < x" "2 ^ 52 * 2 ^ p \<le> x * 2 ^ q" "x * 2 ^ q < 2 ^ 53 * 2 ^ p"
    and "\<bar>x * 2 ^ q / 2 ^ p - of_int m\<bar> < 1 / 2"
  shows "fl x = of_int m * 2 ^ p / 2 ^ q"
proof -
  define k where "k = int p - int q"
  have k: "(2::rat) powi k = 2 ^ p / 2 ^ q"
    by (simp add: k_def two_powi_diff)
  have p52: "(2::rat) powi 52 = 2 ^ 52" and p53: "(2::rat) powi 53 = 2 ^ 53"
    by (simp_all add: power_int_def)
  have k52: "(2::rat) powi (k + 52) = 2 ^ 52 * 2 ^ p / 2 ^ q"
    unfolding two_powi_add k p52 by simp
  have k53: "(2::rat) powi (k + 53) = 2 ^ 53 * 2 ^ p / 2 ^ q"
    unfolding two_powi_add k p53 by simp
  have q: "(0::rat) < 2 ^ q" by simp
  have 1: "2 powi (k + 52) \<le> x"
    unfolding k52 using assms(2) q by (simp add: pos_divide_le_eq)
  have 2: "x < 2 powi (k + 53)"
    unfolding k53 using assms(3) q by (simp add: pos_less_divide_eq)
  have 3: "\<bar>x / 2 powi k - of_int m\<bar> < 1 / 2"
    unfolding k using assms(4) by simp
  show ?thesis
    using fl_unique [OF assms(1) 1 2 3] by (simp add: k)
qed

lemma fl_3_10: "fl (3 / 10) = 5404319552844595 / 2 ^ 54"
  using fl_eval [of "3 / 10" 0 54 5404319552844595] by simp

lemma fl_1_10: "fl (1 / 10) = 3602879701896397 / 2 ^ 55"
  using fl_eval [of "1 / 10" 0 56 7205759403792794] by simp

lemma fl_15_100: "fl (15 / 100) = 5404319552844595 / 2 ^ 55"
  using fl_eval [of "15 / 100" 0 55 5404319552844595] by simp

lemma fl_3_2: "fl (3 / 2) = 3 / 2"
  using fl_eval [of "3 / 2" 0 52 6755399441055744] by simp

lemma float_of_int_exact:
  assumes "0 < i" "i < 2 ^ 53"
  shows "float_of_int i = of_int i"
proof -
  have "(of_int i :: rat) < of_int (2 ^ 53)" using assms(2) by (simp only: of_int_less_iff)
  then have "of_int i * 2 powi 0 < (2::rat) powi (0 + 53)"
    by (simp add: power_int_def)
  then show ?thesis
    using fl_exact [of i 0] assms(1) by (simp add: float_of_int_def)
qed

lemma float_of_int_60: "float_of_int 60 = 60"
  using float_of_int_exact [of 60] by simp

lemma fl_positive:
  assumes "0 < x"
  shows "0 < fl x"
proof -
  have "\<bar>fl x - x\<bar> \<le> x / 2 ^ 53" using assms by (rule fl_error)
  then have "\<bar>fl x - x\<bar> \<le> x / 9007199254740992" by simp
  then show ?thesis using assms by linarith
qed

lemma fl_negative:
  assumes "x < 0"
  shows "fl x < 0"
proof -
  have "0 < fl (- x)" using assms by (intro fl_positive) simp
  moreover have "fl x = - fl (- x)" using assms by (simp add: fl_def)
  ultimately show ?thesis by simp
qed

lemma fl_zero: "fl 0 = 0"
  by (simp add: fl_def)

lemma reading_time_410: "reading_time_seconds 410 = 122"
proof -
  have a: "fl (41 / 20) = 4616189618054758 / 2 ^ 51"
    using fl_eval [of "41 / 20" 0 51 4616189618054758] by simp
  have c: "fl (4616189618054758 / 2 ^ 51 * 60) = 8655355533852671 / 2 ^ 46"
    using fl_eval [of "4616189618054758 / 2 ^ 51 * 60" 0 46 8655355533852671] by simp
  have "reading_time_seconds 410 = py_int (fl (fl (41 / 20) * 60))"
    by (simp add: reading_time_seconds_def float_mul_def float_of_int_60)
  also have "\<dots> = py_int (fl (4616189618054758 / 2 ^ 51 * 60))"
    by (simp only: a)
  also have "\<dots> = py_int (8655355533852671 / 2 ^ 46)"
    by (simp only: c)
  also have "\<dots> = 122"
    unfolding py_int_def by (simp add: floor_eq_iff)
  finally show ?thesis .
qed



subsection \<open>The chunker\<close>

lemma enhance_loop_length: "length (enhance_loop k cs) = length cs"
  by (induction cs arbitrary: k) simp_all

lemma enhance_loop_nth:
  "i < length cs \<Longrightarrow> enhance_loop k cs ! i = enhance_chunk (k + i) (cs ! i)"
proof (induction cs arbitrary: k i)
  case Nil
  then show ?case by simp
next
  case (Cons c cs)
  show ?case
  proof (cases i)
    case 0
    then show ?thesis by simp
  next
    case (Suc j)
    then have "j < length cs" using Cons.prems by simp
    then have "enhance_loop (Suc k) cs ! j = enhance_chunk (Suc k + j) (cs ! j)"
      by (rule Cons.IH)
    then show ?thesis using Suc by simp
  qed
qed

lemma filter_upt_Suc:
  "filter P [0..<Suc n] = (if P 0 then [0] else []) @ map Suc (filter (P \<circ> Suc) [0..<n])"
proof -
  have "[0..<Suc n] = 0 # map Suc [0..<n]"
    by (simp add: upt_conv_Cons map_Suc_upt del: upt_Suc)
  then show ?thesis
    by (simp add: filter_map del: upt_Suc)
qed

lemma count_after_Nil: "count_after p [] = 0"
  by (simp add: count_after_def)

lemma count_after_Cons:
  "count_after p (c # cs) =
     (if \<not> py_isspace c \<and> p then 1 else 0) + count_after (py_isspace c) cs"
proof -
  have comp: "tok_after p (c # cs) \<circ> Suc = tok_after (py_isspace c) cs"
    by (auto simp: fun_eq_iff tok_after_def nth_Cons split: nat.splits)
  have zero: "tok_after p (c # cs) 0 \<longleftrightarrow> \<not> py_isspace c \<and> p"
    by (simp add: tok_after_def)
  have "count_after p (c # cs) = length (filter (tok_after p (c # cs)) [0..<Suc (length cs)])"
    by (simp add: count_after_def)
  also have "\<dots> = (if \<not> py_isspace c \<and> p then 1 else 0)
                 + length (filter (tok_after (py_isspace c) cs) [0..<length cs])"
    unfolding filter_upt_Suc comp using zero by simp
  finally show ?thesis
    by (simp add: count_after_def)
qed

lemma split_ws_length:
  "length (split_ws w s) = (if w = [] then count_after True s else 1 + count_after False s)"
proof (induction s arbitrary: w)
  case Nil
  show ?case by (simp add: count_after_Nil)
next
  case (Cons c cs)
  show ?case
    using Cons.IH [of "[]"] Cons.IH [of "w @ [c]"]
    by (auto simp: count_after_Cons)
qed

lemma py_split_token_count: "length (py_split s) = token_count s"
proof -
  have "tok_after True s = token_start s"
    by (simp add: fun_eq_iff tok_after_def token_start_def)
  then show ?thesis
    using split_ws_length [of "[]" s]
    by (simp add: py_split_def token_count_def count_after_def)
qed

lemma enhance_chunk_lookups:
  "page_content (enhance_chunk k c) = page_content c"
  "map_of (metadata (enhance_chunk k c)) ''chunk_id'' = Some (MInt (int k))"
  "map_of (metadata (enhance_chunk k c)) ''chunk_size'' = Some (MInt (int (length (page_content c))))"
  "map_of (metadata (enhance_chunk k c)) ''word_count'' = Some (MInt (int (token_count (page_content c))))"
  "map_of (metadata (enhance_chunk k c)) ''reading_time_seconds''
     = Some (MInt (reading_time_seconds (token_count (page_content c))))"
  "map_of (metadata (enhance_chunk k c)) ''content_preview''
     = Some (MStr (replace_newlines (take 100 (page_content c)) @ ustr ''...''))"
  by (simp_all add: enhance_chunk_def Let_def update_conv' py_split_token_count)



lemma process_documents_chunks:
  assumes "process_documents tp documents True = Inr chunks"
  shows "\<exists>chunks0. length chunks0 = length chunks \<and>
           (\<forall>i<length chunks. chunks ! i = enhance_chunk i (chunks0 ! i))"
proof (cases "documents = []")
  case True
  then show ?thesis using assms by (auto simp: process_documents_def)
next
  case False
  then obtain chunks0 where c: "chunks = enhance_chunk_metadata chunks0"
    using assms
    by (auto simp: process_documents_def Let_def split: sum.splits)
  show ?thesis
    unfolding c enhance_chunk_metadata_def
    by (rule exI [of _ chunks0]) (simp add: enhance_loop_length enhance_loop_nth)
qed


text \<open>
  C8 as amended. The \<open>content_preview\<close> of every enriched chunk is the first 100
  characters of its content with every line feed replaced by a space, followed by
  three dots.
\<close>

theorem content_preview_amended:
  assumes "process_documents tp documents True = Inr chunks"
  shows "\<forall>i<length chunks.
           map_of (metadata (chunks ! i)) ''content_preview''
             = Some (MStr (replace_newlines (take 100 (page_content (chunks ! i))) @ ustr ''...''))"
proof -
  obtain chunks0 where
    e: "\<forall>i<length chunks. chunks ! i = enhance_chunk i (chunks0 ! i)"
    using process_documents_chunks [OF assms] by blast
  show ?thesis
    using e by (simp add: enhance_chunk_lookups)
qed

lemma calculate_statistics_empty:
  "calculate_statistics [] =
     Inr \<lparr>total_chunks = 0, avg_chunk_size = 0, min_chunk_size = 0, max_chunk_size = 0,
          total_characters = 0\<rparr>"
  by (simp add: calculate_statistics_def)

text \<open>
  C9. Processing no documents returns no chunks. Processing one document without
  content returns no chunks and raises nothing, given a splitter that yields no chunk
  for such a document: the enrichment and the statistics accept the empty list.
\<close>

theorem process_documents_empty:
  "process_documents tp [] add_chunk_metadata = Inr [] \<and>
   (splitter_drops_empty (split_documents tp) \<and> page_content d = [] \<longrightarrow>
      process_documents tp [d] add_chunk_metadata = Inr [] \<and>
      process_single_document tp d add_chunk_metadata = Inr [])"
  by (simp add: process_documents_def process_single_document_def splitter_drops_empty_def
        enhance_chunk_metadata_def calculate_statistics_empty)

lemma calculate_statistics_returns: "\<exists>st. calculate_statistics chunks = Inr st"
  by (cases chunks) (simp_all add: calculate_statistics_def int_truediv_def py_min_def py_max_def Let_def)

lemma process_documents_enriched:
  assumes "documents \<noteq> []" "split_documents tp documents = Inr chunks0"
  shows "process_documents tp documents True = Inr (enhance_chunk_metadata chunks0)"
proof -
  obtain st where "calculate_statistics (enhance_chunk_metadata chunks0) = Inr st"
    using calculate_statistics_returns by blast
  then show ?thesis
    using assms by (simp add: process_documents_def)
qed

lemma demo_run:
  "process_documents demo_processor demo_documents True
     = Inr (enhance_chunk_metadata demo_documents)"
proof -
  have "split_documents demo_processor demo_documents = Inr demo_documents"
    by (simp add: demo_processor_def demo_splitter_def demo_documents_def ustr_def)
  moreover have "demo_documents \<noteq> []"
    by (simp add: demo_documents_def)
  ultimately show ?thesis
    by (intro process_documents_enriched)
qed

lemma demo_enriched:
  "length (enhance_chunk_metadata demo_documents) = 2"
  "page_content (enhance_chunk_metadata demo_documents ! 0)
     = ustr ''Paris is the capital.\<newline>It is in France.''"
  "page_content (enhance_chunk_metadata demo_documents ! 1) = ustr ''tokyo is very big''"
  by (simp_all add: enhance_chunk_metadata_def demo_documents_def enhance_chunk_lookups)




text \<open>
  C8. The claim fails on a chunk of seventeen characters: its preview ends in three dots
  that its content does not have.
\<close>

theorem content_preview_counterexample:
  "process_documents demo_processor demo_documents True
     = Inr (enhance_chunk_metadata demo_documents) \<and>
   take 100 (page_content (enhance_chunk_metadata demo_documents ! 1))
     = ustr ''tokyo is very big'' \<and>
   map_of (metadata (enhance_chunk_metadata demo_documents ! 1)) ''content_preview''
     = Some (MStr (ustr ''tokyo is very big...'')) \<and>
   map_of (metadata (enhance_chunk_metadata demo_documents ! 1)) ''content_preview''
     \<noteq> Some (MStr (take 100 (page_content (enhance_chunk_metadata demo_documents ! 1))))"
  by (simp add: demo_run)
     (simp add: enhance_chunk_metadata_def demo_documents_def enhance_chunk_lookups
        replace_newlines_def ustr_def)

theorem content_preview_amended_witness:
  "map_of (metadata (enhance_chunk_metadata demo_documents ! 0)) ''content_preview''
     = Some (MStr (ustr ''Paris is the capital. It is in France....''))"
proof -
  have "(0::nat) < length (enhance_chunk_metadata demo_documents)"
    by (simp add: demo_enriched)
  then have "map_of (metadata (enhance_chunk_metadata demo_documents ! 0)) ''content_preview''
     = Some (MStr (replace_newlines (take 100
               (page_content (enhance_chunk_metadata demo_documents ! 0))) @ ustr ''...''))"
    using content_preview_amended [OF demo_run] by blast
  then show ?thesis
    by (simp add: demo_enriched) (simp add: replace_newlines_def ustr_def)
qed

theorem process_documents_empty_witness:
  "process_documents demo_processor [] True = Inr [] \<and>
   process_documents demo_processor [\<lparr>page_content = [], metadata = []\<rparr>] True = Inr []"
proof -
  have "splitter_drops_empty (split_documents demo_processor)"
    by (simp add: splitter_drops_empty_def demo_processor_def demo_splitter_def)
  then show ?thesis
    using process_documents_empty [of demo_processor True "\<lparr>page_content = [], metadata = []\<rparr>"]
    by simp
qed

subsection \<open>The quality report: float thresholds in exact arithmetic\<close>

lemma float_threshold_03_pos:
  assumes "0 < cs" "cs < 2 ^ 50"
  shows "(of_nat l < float_mul (float_of_int cs) (fl (3 / 10))) \<longleftrightarrow> 10 * int l < 3 * cs"
proof -
  define C :: rat where "C = of_int cs"
  define L :: rat where "L = of_nat l"
  define x :: rat where "x = C * (5404319552844595 / 2 ^ 54)"
  have "(of_int 0 :: rat) < of_int cs" "(of_int cs :: rat) < of_int (2 ^ 50)"
    using assms by (simp_all only: of_int_less_iff)
  then have C: "0 < C" "C < 1125899906842624"
    by (simp_all add: C_def)
  have f: "float_of_int cs = C"
    unfolding C_def using assms by (intro float_of_int_exact) simp_all
  have y: "float_mul (float_of_int cs) (fl (3 / 10)) = fl x"
    by (simp only: float_mul_def f fl_3_10 x_def)
  have xpos: "0 < x" using C by (simp add: x_def)
  have xeq: "x = 3 * C / 10 - C / 90071992547409920"
    by (simp add: x_def)
  have "\<bar>fl x - x\<bar> \<le> x / 2 ^ 53" using xpos by (rule fl_error)
  then have "\<bar>fl x - x\<bar> \<le> x / 9007199254740992" by simp
  then have err: "fl x \<le> x + x / 9007199254740992" "x - x / 9007199254740992 \<le> fl x"
    by linarith+
  have "x < 9007199254740992" using C xeq by linarith
  then have x53: "x < 2 powi (0 + 53)"
    by (simp add: power_int_def)
  show ?thesis
  proof (cases "10 * int l < 3 * cs")
    case True
    then have "10 * int l + 1 \<le> 3 * cs" by simp
    then have "(of_int (10 * int l + 1) :: rat) \<le> of_int (3 * cs)"
      by (simp only: of_int_le_iff)
    then have "10 * L + 1 \<le> 3 * C" by (simp add: L_def C_def)
    then have "L < fl x" using err xeq C by linarith
    then show ?thesis using True by (simp add: y L_def)
  next
    case False
    show ?thesis
    proof (cases "10 * int l = 3 * cs")
      case True
      then have "(of_int (10 * int l) :: rat) = of_int (3 * cs)" by simp
      then have "10 * L = 3 * C" by (simp add: L_def C_def)
      then have "x \<le> L" using xeq C by linarith
      then have "x \<le> of_int (int l) * 2 powi 0" by (simp add: L_def)
      then have "fl x \<le> of_int (int l) * 2 powi 0"
        using xpos x53 by (intro fl_le_grid)
      then show ?thesis using False by (simp add: y)
    next
      case False
      then have "3 * cs + 1 \<le> 10 * int l" using \<open>\<not> 10 * int l < 3 * cs\<close> by simp
      then have "(of_int (3 * cs + 1) :: rat) \<le> of_int (10 * int l)"
        by (simp only: of_int_le_iff)
      then have "3 * C + 1 \<le> 10 * L" by (simp add: L_def C_def)
      then have "fl x < L" using err xeq C by linarith
      then show ?thesis using \<open>\<not> 10 * int l < 3 * cs\<close> by (simp add: y L_def)
    qed
  qed
qed

lemma float_threshold_15_pos:
  assumes "0 < cs" "cs < 2 ^ 50"
  shows "(float_mul (float_of_int cs) (fl (3 / 2)) < of_nat l) \<longleftrightarrow> 3 * cs < 2 * int l"
proof -
  define C :: rat where "C = of_int cs"
  have "(of_int 0 :: rat) < of_int cs" "(of_int cs :: rat) < of_int (2 ^ 50)"
    using assms by (simp_all only: of_int_less_iff)
  then have C: "0 < C" "C < 1125899906842624"
    by (simp_all add: C_def)
  have f: "float_of_int cs = C"
    unfolding C_def using assms by (intro float_of_int_exact) simp_all
  have h: "(2::rat) powi (- 1) = 1 / 2" "(2::rat) powi (- 1 + 53) = 4503599627370496"
    by (simp_all add: power_int_def)
  have "fl (of_int (3 * cs) * 2 powi (- 1)) = of_int (3 * cs) * 2 powi (- 1)"
  proof (rule fl_exact)
    show "0 < 3 * cs" using assms by simp
    have "3 * C / 2 < 4503599627370496" using C by linarith
    then show "of_int (3 * cs) * 2 powi (- 1) < (2::rat) powi (- 1 + 53)"
      unfolding h by (simp add: C_def)
  qed
  moreover have "(of_int (3 * cs) :: rat) * 2 powi (- 1) = C * (3 / 2)"
    by (simp add: C_def h)
  ultimately have "fl (C * (3 / 2)) = C * (3 / 2)"
    by (simp only:)
  then have y: "float_mul (float_of_int cs) (fl (3 / 2)) = C * (3 / 2)"
    by (simp only: float_mul_def f fl_3_2)
  have "(C * (3 / 2) < of_nat l) \<longleftrightarrow> (of_int (3 * cs) :: rat) < of_int (2 * int l)"
    by (simp add: C_def mult.commute)
  also have "\<dots> \<longleftrightarrow> 3 * cs < 2 * int l"
    by (simp only: of_int_less_iff)
  finally show ?thesis by (simp only: y)
qed

lemma float_threshold_01:
  assumes "0 < n" "n < 2 ^ 50"
  shows "(float_mul (float_of_int (int n)) (fl (1 / 10)) < of_nat c) \<longleftrightarrow> n < 10 * c"
proof -
  define N :: rat where "N = of_nat n"
  define K :: rat where "K = of_nat c"
  define x :: rat where "x = N * (3602879701896397 / 2 ^ 55)"
  have "(of_nat 0 :: rat) < of_nat n" "(of_nat n :: rat) < of_nat (2 ^ 50)"
    using assms by (simp_all only: of_nat_less_iff)
  then have N: "0 < N" "N < 1125899906842624"
    by (simp_all add: N_def)
  have "int n < int (2 ^ 50)" using assms(2) by (simp only: of_nat_less_iff)
  then have "int n < 2 ^ 50" by simp
  then have f: "float_of_int (int n) = N"
    unfolding N_def using assms(1) float_of_int_exact [of "int n"] by simp
  have y: "float_mul (float_of_int (int n)) (fl (1 / 10)) = fl x"
    by (simp only: float_mul_def f fl_1_10 x_def)
  have xpos: "0 < x" using N by (simp add: x_def)
  have xeq: "x = N / 10 + N / 180143985094819840"
    by (simp add: x_def)
  have "\<bar>fl x - x\<bar> \<le> x / 2 ^ 53" using xpos by (rule fl_error)
  then have "\<bar>fl x - x\<bar> \<le> x / 9007199254740992" by simp
  then have err: "fl x \<le> x + x / 9007199254740992" "x - x / 9007199254740992 \<le> fl x"
    by linarith+
  have "x < 9007199254740992" using N xeq by linarith
  then have x53: "x < 2 powi (0 + 53)"
    by (simp add: power_int_def)
  show ?thesis
  proof (cases "n < 10 * c")
    case True
    then have "n + 1 \<le> 10 * c" by simp
    then have "(of_nat (n + 1) :: rat) \<le> of_nat (10 * c)"
      by (simp only: of_nat_le_iff)
    then have "N + 1 \<le> 10 * K" by (simp add: N_def K_def)
    then have "fl x < K" using err xeq N by linarith
    then show ?thesis using True by (simp add: y K_def)
  next
    case False
    show ?thesis
    proof (cases "n = 10 * c")
      case True
      then have "(of_nat n :: rat) = of_nat (10 * c)" by simp
      then have "N = 10 * K" by (simp add: N_def K_def)
      then have "K \<le> x" using xeq N by linarith
      then have "of_int (int c) * 2 powi 0 \<le> x" by (simp add: K_def)
      then have "of_int (int c) * 2 powi 0 \<le> fl x"
        using xpos x53 by (intro fl_ge_grid)
      then show ?thesis using False by (simp add: y)
    next
      case False
      then have "10 * c + 1 \<le> n" using \<open>\<not> n < 10 * c\<close> by simp
      then have "(of_nat (10 * c + 1) :: rat) \<le> of_nat n"
        by (simp only: of_nat_le_iff)
      then have "10 * K + 1 \<le> N" by (simp add: N_def K_def)
      then have "K < fl x" using err xeq N by linarith
      then show ?thesis using \<open>\<not> n < 10 * c\<close> by (simp add: y K_def)
    qed
  qed
qed

lemma float_threshold_015:
  assumes "0 < n" "n < 2 ^ 50"
  shows "(float_mul (float_of_int (int n)) (fl (15 / 100)) < of_nat c) \<longleftrightarrow> 3 * n < 20 * c"
proof -
  define N :: rat where "N = of_nat n"
  define K :: rat where "K = of_nat c"
  define x :: rat where "x = N * (5404319552844595 / 2 ^ 55)"
  have "(of_nat 0 :: rat) < of_nat n" "(of_nat n :: rat) < of_nat (2 ^ 50)"
    using assms by (simp_all only: of_nat_less_iff)
  then have N: "0 < N" "N < 1125899906842624"
    by (simp_all add: N_def)
  have "int n < int (2 ^ 50)" using assms(2) by (simp only: of_nat_less_iff)
  then have "int n < 2 ^ 50" by simp
  then have f: "float_of_int (int n) = N"
    unfolding N_def using assms(1) float_of_int_exact [of "int n"] by simp
  have y: "float_mul (float_of_int (int n)) (fl (15 / 100)) = fl x"
    by (simp only: float_mul_def f fl_15_100 x_def)
  have xpos: "0 < x" using N by (simp add: x_def)
  have xeq: "x = 3 * N / 20 - N / 180143985094819840"
    by (simp add: x_def)
  have "\<bar>fl x - x\<bar> \<le> x / 2 ^ 53" using xpos by (rule fl_error)
  then have "\<bar>fl x - x\<bar> \<le> x / 9007199254740992" by simp
  then have err: "fl x \<le> x + x / 9007199254740992" "x - x / 9007199254740992 \<le> fl x"
    by linarith+
  have "x < 9007199254740992" using N xeq by linarith
  then have x53: "x < 2 powi (0 + 53)"
    by (simp add: power_int_def)
  show ?thesis
  proof (cases "3 * n < 20 * c")
    case True
    then have "3 * n + 1 \<le> 20 * c" by simp
    then have "(of_nat (3 * n + 1) :: rat) \<le> of_nat (20 * c)"
      by (simp only: of_nat_le_iff)
    then have "3 * N + 1 \<le> 20 * K" by (simp add: N_def K_def)
    then have "fl x < K" using err xeq N by linarith
    then show ?thesis unfolding y using True by (simp add: K_def)
  next
    case False
    show ?thesis
    proof (cases "3 * n = 20 * c")
      case True
      then have "(of_nat (3 * n) :: rat) = of_nat (20 * c)" by simp
      then have e: "3 * N = 20 * K" by (simp add: N_def K_def)
      define P :: rat where "P = 2 powi (flog2 x)"
      have "x < 2 powi (flog2 x + 1)" using flog2_bounds [OF xpos] by simp
      then have P: "x < 2 * P" by (simp add: P_def two_powi_add)
      have "\<bar>x - K\<bar> < P / 9007199254740992"
        using e xeq N P by linarith
      then have "\<bar>x - of_int (int c) * 2 powi 0\<bar> < 2 powi (flog2 x) / 2 ^ 53"
        by (simp add: K_def P_def)
      then have "fl x = of_int (int c) * 2 powi 0"
        using xpos x53 by (intro fl_nearest_grid)
      then show ?thesis unfolding y using False by simp
    next
      case False
      then have "20 * c + 1 \<le> 3 * n" using \<open>\<not> 3 * n < 20 * c\<close> by simp
      then have "(of_nat (20 * c + 1) :: rat) \<le> of_nat (3 * n)"
        by (simp only: of_nat_le_iff)
      then have "20 * K + 1 \<le> 3 * N" by (simp add: N_def K_def)
      then have "K < fl x" using err xeq N by linarith
      then show ?thesis unfolding y using \<open>\<not> 3 * n < 20 * c\<close> by (simp add: K_def)
    qed
  qed
qed

lemma float_product_sign:
  assumes "0 < c"
  shows "cs = 0 \<Longrightarrow> float_mul (float_of_int cs) c = 0"
    and "cs < 0 \<Longrightarrow> float_mul (float_of_int cs) c < 0"
proof -
  show "float_mul (float_of_int cs) c = 0" if "cs = 0"
    using that by (simp add: float_mul_def float_of_int_def fl_zero)
  show "float_mul (float_of_int cs) c < 0" if "cs < 0"
  proof -
    have "(of_int cs :: rat) < 0" using that by simp
    then have "float_of_int cs < 0" unfolding float_of_int_def by (rule fl_negative)
    then have "float_of_int cs * c < 0" using assms by (simp add: mult_neg_pos)
    then show ?thesis unfolding float_mul_def by (rule fl_negative)
  qed
qed

lemma fl_3_10_pos: "0 < fl (3 / 10)"
  by (intro fl_positive) simp

lemma fl_3_2_pos: "0 < fl (3 / 2)"
  by (intro fl_positive) simp

lemma float_threshold_03:
  assumes "cs < 2 ^ 50"
  shows "(of_nat l < float_mul (float_of_int cs) (fl (3 / 10))) \<longleftrightarrow> 10 * int l < 3 * cs"
proof (cases "0 < cs")
  case True
  then show ?thesis using assms by (rule float_threshold_03_pos)
next
  case False
  then have "float_mul (float_of_int cs) (fl (3 / 10)) \<le> 0"
    using float_product_sign [OF fl_3_10_pos, of cs] by (cases "cs = 0") simp_all
  moreover have "(0::rat) \<le> of_nat l" by simp
  ultimately have "\<not> of_nat l < float_mul (float_of_int cs) (fl (3 / 10))"
    by linarith
  moreover have "\<not> 10 * int l < 3 * cs" using False by simp
  ultimately show ?thesis by simp
qed

lemma float_threshold_15:
  assumes "cs < 2 ^ 50"
  shows "(float_mul (float_of_int cs) (fl (3 / 2)) < of_nat l) \<longleftrightarrow> 3 * cs < 2 * int l"
proof (cases "0 < cs")
  case True
  then show ?thesis using assms by (rule float_threshold_15_pos)
next
  case False
  show ?thesis
  proof (cases "cs = 0")
    case True
    then have "float_mul (float_of_int cs) (fl (3 / 2)) = 0"
      using float_product_sign(1) [OF fl_3_2_pos] by simp
    then show ?thesis using True by simp
  next
    case nz: False
    then have neg: "cs < 0" using False by simp
    then have "float_mul (float_of_int cs) (fl (3 / 2)) < 0"
      using float_product_sign(2) [OF fl_3_2_pos] by simp
    moreover have "(0::rat) \<le> of_nat l" by simp
    ultimately have "float_mul (float_of_int cs) (fl (3 / 2)) < of_nat l"
      by linarith
    moreover have "3 * cs < 2 * int l" using neg by simp
    ultimately show ?thesis by simp
  qed
qed

lemma too_small_spec:
  assumes "chunk_size tp < 2 ^ 50"
  shows "too_small tp chunks = filter (is_too_small (chunk_size tp)) chunks"
  unfolding too_small_def is_too_small_def
  by (rule filter_cong [OF refl]) (simp only: float_threshold_03 [OF assms])

lemma too_large_spec:
  assumes "chunk_size tp < 2 ^ 50"
  shows "too_large tp chunks = filter (is_too_large (chunk_size tp)) chunks"
  unfolding too_large_def is_too_large_def
  by (rule filter_cong [OF refl]) (simp only: float_threshold_15 [OF assms])

lemma low_context_spec:
  "low_context_chunks islower chunks = filter (is_low_context islower chunks) [0..<length chunks]"
proof (cases "length chunks")
  case 0
  then show ?thesis by (simp add: low_context_chunks_def)
next
  case (Suc m)
  have split: "[0..<length chunks] = 0 # [1..<length chunks]"
    using Suc by (simp add: upt_conv_Cons)
  have zero: "\<not> is_low_context islower chunks 0"
    by (simp add: is_low_context_def)
  have rest: "filter (is_low_context islower chunks) [1..<length chunks]
                = low_context_chunks islower chunks"
    unfolding low_context_chunks_def
    by (rule filter_cong [OF refl]) (auto simp: is_low_context_def Let_def hd_conv_nth)
  show ?thesis
    unfolding split using zero rest by simp
qed

lemma recommendations_spec:
  assumes "0 < n" "n < 2 ^ 50"
  shows "recommendations n_small n_large n_low n
           = specified_recommendations n_small n_large n_low n"
proof -
  have a: "(float_mul (float_of_int (int n)) (fl (1 / 10)) < of_nat c)
             \<longleftrightarrow> exceeds_percent 10 c n" for c
    unfolding float_threshold_01 [OF assms] exceeds_percent_def by auto
  have b: "(float_mul (float_of_int (int n)) (fl (15 / 100)) < of_nat c)
             \<longleftrightarrow> exceeds_percent 15 c n" for c
    unfolding float_threshold_015 [OF assms] exceeds_percent_def by auto
  show ?thesis
    unfolding recommendations_def specified_recommendations_def a b
    by (simp add: Let_def)
qed

text \<open>
  C5. For a list of chunks that is not empty (with a chunk size and a number of
  chunks below \<open>2^50\<close>), the report counts as too small the chunks whose content
  length is below 0.3 times the chunk size, as too large those above 1.5 times it, and
  as low-context the chunks after the first whose first character is lowercase. Its
  recommendations are, in this order, one for the small chunks when their count
  exceeds 10 percent of all chunks, one for the large chunks when theirs exceeds 10
  percent, and one for the low-context chunks when theirs exceeds 15 percent; when none
  of the three is triggered, the list is the single acknowledgment. The float
  comparisons of the code decide exactly these conditions.
\<close>

theorem analyze_chunk_quality_report:
  assumes "chunks \<noteq> []" "chunk_size tp < 2 ^ 50" "length chunks < 2 ^ 50"
  shows "\<exists>report. analyze_chunk_quality tp islower chunks = Inr report \<and>
           map_of report ''quality_metrics'' =
             Some (PDict
               [(''chunks_too_small'',
                   PInt (int (length (filter (is_too_small (chunk_size tp)) chunks)))),
                (''chunks_too_large'',
                   PInt (int (length (filter (is_too_large (chunk_size tp)) chunks)))),
                (''chunks_with_low_context'',
                   PInt (int (length (filter (is_low_context islower chunks)
                                        [0..<length chunks]))))]) \<and>
           map_of report ''recommendations'' =
             Some (PList (map PStr
               (specified_recommendations
                  (length (filter (is_too_small (chunk_size tp)) chunks))
                  (length (filter (is_too_large (chunk_size tp)) chunks))
                  (length (filter (is_low_context islower chunks) [0..<length chunks]))
                  (length chunks))))"
proof -
  obtain stats where st: "calculate_statistics chunks = Inr stats"
    using calculate_statistics_returns by blast
  have n: "0 < length chunks" using assms(1) by simp
  show ?thesis
    using assms(1)
    by (simp add: analyze_chunk_quality_def st Let_def
          too_small_spec [OF assms(2)] too_large_spec [OF assms(2)] low_context_spec
          recommendations_spec [OF n assms(3)])
qed

lemma demo_counts:
  "length (filter (is_too_small 1000) demo_chunks) = 1"
  "length (filter (is_too_large 1000) demo_chunks) = 1"
  "length (filter (is_low_context ascii_islower demo_chunks) [0..<length demo_chunks]) = 2"
  "length demo_chunks = 4"
  by (simp_all add: demo_chunks_def is_too_small_def is_too_large_def is_low_context_def
        ascii_islower_def upt_conv_Cons)

lemma demo_good_counts:
  "length (filter (is_too_small 1000) (take 1 demo_chunks)) = 0"
  "length (filter (is_too_large 1000) (take 1 demo_chunks)) = 0"
  "length (filter (is_low_context ascii_islower (take 1 demo_chunks))
             [0..<length (take 1 demo_chunks)]) = 0"
  "length (take 1 demo_chunks) = 1"
  by (simp_all add: demo_chunks_def is_too_small_def is_too_large_def is_low_context_def
        ascii_islower_def upt_conv_Cons)

theorem analyze_chunk_quality_report_witness:
  "(\<exists>report. analyze_chunk_quality demo_processor ascii_islower demo_chunks = Inr report \<and>
     map_of report ''quality_metrics'' =
       Some (PDict [(''chunks_too_small'', PInt 1), (''chunks_too_large'', PInt 1),
                    (''chunks_with_low_context'', PInt 2)]) \<and>
     map_of report ''recommendations'' =
       Some (PList [PStr (small_message 1), PStr (large_message 1),
                    PStr (low_context_message 2)])) \<and>
   (\<exists>report. analyze_chunk_quality demo_processor ascii_islower (take 1 demo_chunks)
        = Inr report \<and>
     map_of report ''quality_metrics'' =
       Some (PDict [(''chunks_too_small'', PInt 0), (''chunks_too_large'', PInt 0),
                    (''chunks_with_low_context'', PInt 0)]) \<and>
     map_of report ''recommendations'' = Some (PList [PStr good_message]))"
proof -
  have g: "take 1 demo_chunks \<noteq> []" "length (take 1 demo_chunks) < 2 ^ 50"
    by (simp_all add: demo_chunks_def)
  have rg: "specified_recommendations 0 0 0 1 = [good_message]"
    by (simp add: specified_recommendations_def exceeds_percent_def)
  have h: "demo_chunks \<noteq> []" "chunk_size demo_processor < 2 ^ 50"
    "length demo_chunks < 2 ^ 50"
    by (simp_all add: demo_chunks_def demo_processor_def)
  have cs: "chunk_size demo_processor = 1000"
    by (simp add: demo_processor_def)
  have r: "specified_recommendations 1 1 2 4
             = [small_message 1, large_message 1, low_context_message 2]"
    by (simp add: specified_recommendations_def exceeds_percent_def)
  note t = analyze_chunk_quality_report [OF h, of ascii_islower]
  note t1 = t [unfolded cs demo_counts(1-3)]
  note t2 = t1 [unfolded demo_counts(4) r]
  note u = analyze_chunk_quality_report [OF g(1) h(2) g(2), of ascii_islower]
  note u1 = u [unfolded cs demo_good_counts(1-3)]
  note u2 = u1 [unfolded demo_good_counts(4) rg]
  have 1: "\<exists>report. analyze_chunk_quality demo_processor ascii_islower demo_chunks
        = Inr report \<and>
     map_of report ''quality_metrics'' =
       Some (PDict [(''chunks_too_small'', PInt 1), (''chunks_too_large'', PInt 1),
                    (''chunks_with_low_context'', PInt 2)]) \<and>
     map_of report ''recommendations'' =
       Some (PList [PStr (small_message 1), PStr (large_message 1),
                    PStr (low_context_message 2)])"
    using t2 by simp
  have 2: "\<exists>report. analyze_chunk_quality demo_processor ascii_islower (take 1 demo_chunks)
        = Inr report \<and>
     map_of report ''quality_metrics'' =
       Some (PDict [(''chunks_too_small'', PInt 0), (''chunks_too_large'', PInt 0),
                    (''chunks_with_low_context'', PInt 0)]) \<and>
     map_of report ''recommendations'' = Some (PList [PStr good_message])"
    using u2 by simp
  show ?thesis
    using 1 2 by (rule conjI)
qed

subsection \<open>The vector index manager\<close>

text \<open>
  C4. Whatever the query, \<open>k\<close> and the filter: when the store is not initialised, or
  when the backend's search call raises, \<open>similarity_search\<close> returns the empty list;
  and on no input does a raise reach its caller.
\<close>

theorem similarity_search_failure:
  "(vector_store mgr = None \<longrightarrow>
      fst (similarity_search mgr query_text k filter_dict st) = Inr []) \<and>
   (\<forall>vs e. vector_store mgr = Some vs \<and>
      search_records vs (collection st) query_text k (applied_filter filter_dict) = Inl e
      \<longrightarrow> fst (similarity_search mgr query_text k filter_dict st) = Inr []) \<and>
   (\<exists>results. fst (similarity_search mgr query_text k filter_dict st) = Inr results)"
  by (auto simp: similarity_search_def Let_def split: option.splits sum.splits)

theorem similarity_search_failure_witness:
  "fst (similarity_search demo_manager (ustr ''boom'') 4 None demo_state) = Inr [] \<and>
   fst (similarity_search (demo_manager\<lparr>vector_store := None\<rparr>) (ustr ''capital'') 4 None
          demo_state) = Inr []"
proof -
  have s: "vector_store demo_manager = Some demo_store \<and>
      search_records demo_store (collection demo_state) (ustr ''boom'') 4 (applied_filter None)
        = Inl (Exception (ustr ''backend down''))"
    by (simp add: demo_manager_def demo_store_def)
  have n: "vector_store (demo_manager\<lparr>vector_store := None\<rparr>) = None"
    by simp
  show ?thesis
    using similarity_search_failure [of demo_manager "ustr ''boom''" 4 None demo_state] s
      similarity_search_failure [of "demo_manager\<lparr>vector_store := None\<rparr>" "ustr ''capital''"
        4 None demo_state] n
    by blast
qed

text \<open>
  C10. With no chunks, \<open>add_documents\<close> returns the failure dictionary with the error
  \<open>No documents\<close> and the state as it was: no call to the store, embedding or
  insertion, is made and the collection is unchanged. The result has no
  \<open>documents_added\<close> entry and does not report success.
\<close>

theorem add_documents_empty:
  "add_documents mgr [] batch_size elapsed st =
     ([(''success'', PBool False), (''error'', PStr (ustr ''No documents''))], st) \<and>
   map_of (fst (add_documents mgr [] batch_size elapsed st)) ''success'' = Some (PBool False) \<and>
   map_of (fst (add_documents mgr [] batch_size elapsed st)) ''documents_added'' = None \<and>
   calls (snd (add_documents mgr [] batch_size elapsed st)) = calls st \<and>
   fst (get_document_count mgr (snd (add_documents mgr [] batch_size elapsed st)))
     = fst (get_document_count mgr st)"
  by (simp add: add_documents_def)

theorem add_documents_empty_witness:
  "add_documents demo_manager [] 100 0 demo_state =
     ([(''success'', PBool False), (''error'', PStr (ustr ''No documents''))], demo_state)"
  using add_documents_empty [of demo_manager 100 0 demo_state] by simp

end
